theory Spec2Isabelle
  imports Complex_Main "HOL-Library.List_Lexorder" "HOL-Library.Char_ord"
    "HOL-Library.Product_Lexorder"
begin

section \<open>Civil calendar and instants\<close>

text \<open>
  The schedulers build local datetimes with Python's \<open>datetime(year, month, day, 8, 30,
  tzinfo=ny_tz)\<close>, ask them for \<open>weekday()\<close> and convert them with \<open>astimezone(UTC)\<close>.
  The calendar below is the proleptic Gregorian calendar of Python's \<open>datetime\<close> module:
  day 1 is 0001-01-01, \<open>weekday()\<close> is \<open>(toordinal() + 6) % 7\<close> with Monday = 0.
\<close>

datatype error = ValueError | IndexError | OverflowError | OutOfBoundsDatetime

definition is_leap :: "int \<Rightarrow> bool" where
  "is_leap y = (y mod 4 = 0 \<and> (y mod 100 \<noteq> 0 \<or> y mod 400 = 0))"

definition days_in_month :: "int \<Rightarrow> int \<Rightarrow> int" where
  "days_in_month y m =
     (if m = 2 then (if is_leap y then 29 else 28)
      else if m = 4 \<or> m = 6 \<or> m = 9 \<or> m = 11 then 30 else 31)"

definition days_before_year :: "int \<Rightarrow> int" where
  "days_before_year y = (y - 1) * 365 + (y - 1) div 4 - (y - 1) div 100 + (y - 1) div 400"

definition days_before_month :: "int \<Rightarrow> int \<Rightarrow> int" where
  "days_before_month y m =
     (if m = 1 then 0 else if m = 2 then 31 else if m = 3 then 59 else if m = 4 then 90
      else if m = 5 then 120 else if m = 6 then 151 else if m = 7 then 181
      else if m = 8 then 212 else if m = 9 then 243 else if m = 10 then 273
      else if m = 11 then 304 else 334)
     + (if m > 2 \<and> is_leap y then 1 else 0)"

definition ymd2ord :: "int \<Rightarrow> int \<Rightarrow> int \<Rightarrow> int" where
  "ymd2ord y m d = days_before_year y + days_before_month y m + d"

text \<open>
  A local (wall-clock) datetime: the ordinal of its date and the seconds since local
  midnight. The time zone is kept apart, as the function giving the UTC offset in seconds
  of a local datetime (\<open>ZoneInfo("America/New_York")\<close> in the source, whose table is not
  part of the repository).
\<close>

record local_dt =
  toordinal :: int
  secs :: int

type_synonym tzinfo = "local_dt \<Rightarrow> int"

definition max_ordinal :: int where
  "max_ordinal = 3652059"

text \<open>\<open>datetime(y, m, d, hh, mi)\<close>: raises ValueError on a date that does not exist.\<close>

definition datetime :: "int \<Rightarrow> int \<Rightarrow> int \<Rightarrow> int \<Rightarrow> int \<Rightarrow> error + local_dt" where
  "datetime y m d hh mi =
     (if 1 \<le> y \<and> y \<le> 9999 \<and> 1 \<le> m \<and> m \<le> 12 \<and> 1 \<le> d \<and> d \<le> days_in_month y m
      then Inr \<lparr>toordinal = ymd2ord y m d, secs = hh * 3600 + mi * 60\<rparr>
      else Inl ValueError)"

definition weekday :: "local_dt \<Rightarrow> int" where
  "weekday dt = (toordinal dt + 6) mod 7"

text \<open>\<open>dt + Timedelta(days=n)\<close>: wall-clock arithmetic, OverflowError outside years 1..9999.\<close>

definition add_days :: "local_dt \<Rightarrow> int \<Rightarrow> error + local_dt" where
  "add_days dt n =
     (if 1 \<le> toordinal dt + n \<and> toordinal dt + n \<le> max_ordinal
      then Inr (dt\<lparr>toordinal := toordinal dt + n\<rparr>)
      else Inl OverflowError)"

text \<open>
  \<open>astimezone(UTC)\<close>: the instant, in seconds since 1970-01-01T00:00Z (ordinal 719163),
  is the wall-clock reading minus the zone's UTC offset.
\<close>

definition astimezone_utc :: "tzinfo \<Rightarrow> local_dt \<Rightarrow> int" where
  "astimezone_utc tz dt = (toordinal dt - 719163) * 86400 + secs dt - tz dt"

text \<open>Eastern Standard Time all year round: a concrete zone for the examples.\<close>

definition est :: tzinfo where
  "est dt = - 18000"

text \<open>
  An index entry of a pandas series: a timestamp of which the schedulers read
  \<open>.year\<close> and \<open>.month\<close>. pandas timestamps lie between the years 1677 and 2262.
\<close>

record date =
  year :: int
  month :: int
  day :: int

definition timestamp_ok :: "date \<Rightarrow> bool" where
  "timestamp_ok d =
     (1677 \<le> year d \<and> year d \<le> 2262 \<and> 1 \<le> month d \<and> month d \<le> 12 \<and>
      1 \<le> day d \<and> day d \<le> days_in_month (year d) (month d))"

section \<open>Release schedulers\<close>

text \<open>Runs a loop body over a list and stops at the first exception.\<close>

fun map_result :: "('a \<Rightarrow> error + 'b) \<Rightarrow> 'a list \<Rightarrow> error + 'b list" where
  "map_result f [] = Inr []"
| "map_result f (x # xs) =
     (case f x of
        Inl e \<Rightarrow> Inl e
      | Inr y \<Rightarrow> (case map_result f xs of Inl e \<Rightarrow> Inl e | Inr ys \<Rightarrow> Inr (y # ys)))"

text \<open>
  \<open>release_month = month + 1; release_year = year; if release_month == 13: ...\<close>,
  shared by the CPI, PPI and NFP schedulers.
\<close>

definition release_year_month :: "date \<Rightarrow> int \<times> int" where
  "release_year_month d =
     (if month d + 1 = 13 then (year d + 1, 1) else (year d, month d + 1))"

text \<open>
  The weekend loop of \<open>get_cpi_release_schedule\<close> and \<open>get_ppi_release_schedule\<close>:
  \<open>while release_dt_local.weekday() >= 5: release_day += 1; release_dt_local = datetime(...)\<close>.
\<close>

function weekend_loop :: "int \<Rightarrow> int \<Rightarrow> int \<Rightarrow> error + local_dt" where
  "weekend_loop y m release_day =
     (case datetime y m release_day 8 30 of
        Inl e \<Rightarrow> Inl e
      | Inr dt \<Rightarrow> if weekday dt \<ge> 5 then weekend_loop y m (release_day + 1) else Inr dt)"
  by pat_completeness auto
termination
proof (relation "measure (\<lambda>(y, m, d). nat (32 - d))")
  show "wf (measure (\<lambda>(y, m, d). nat (32 - d)))" by simp
next
  fix y m release_day :: int and dt :: local_dt
  assume "datetime y m release_day 8 30 = Inr dt"
  then have "release_day \<le> days_in_month y m"
    by (simp add: datetime_def split: if_splits)
  moreover have "days_in_month y m \<le> 31"
    by (simp add: days_in_month_def)
  ultimately show "((y, m, release_day + 1), (y, m, release_day))
      \<in> measure (\<lambda>(y, m, d). nat (32 - d))"
    by simp
qed

declare weekend_loop.simps [simp del]

definition cpi_release :: "tzinfo \<Rightarrow> date \<Rightarrow> error + int" where
  "cpi_release ny_tz d =
     (case release_year_month d of (release_year, release_month) \<Rightarrow>
        (case weekend_loop release_year release_month 10 of
           Inl e \<Rightarrow> Inl e
         | Inr release_dt_local \<Rightarrow> Inr (astimezone_utc ny_tz release_dt_local)))"

definition get_cpi_release_schedule :: "tzinfo \<Rightarrow> (date \<times> 'v) list \<Rightarrow> error + int list" where
  "get_cpi_release_schedule ny_tz cpi_series = map_result (cpi_release ny_tz) (map fst cpi_series)"

definition ppi_release :: "tzinfo \<Rightarrow> date \<Rightarrow> error + int" where
  "ppi_release ny_tz d =
     (case release_year_month d of (release_year, release_month) \<Rightarrow>
        (case weekend_loop release_year release_month 14 of
           Inl e \<Rightarrow> Inl e
         | Inr release_dt_local \<Rightarrow> Inr (astimezone_utc ny_tz release_dt_local)))"

definition get_ppi_release_schedule :: "tzinfo \<Rightarrow> (date \<times> 'v) list \<Rightarrow> error + int list" where
  "get_ppi_release_schedule ny_tz ppi_series = map_result (ppi_release ny_tz) (map fst ppi_series)"

text \<open>
  The loop of \<open>get_nfp_release_schedule\<close>:
  \<open>while release_dt.weekday() != 4: release_dt += pd.Timedelta(days=1)\<close>.
\<close>

function friday_loop :: "local_dt \<Rightarrow> error + local_dt" where
  "friday_loop release_dt =
     (if weekday release_dt \<noteq> 4
      then (case add_days release_dt 1 of Inl e \<Rightarrow> Inl e | Inr dt' \<Rightarrow> friday_loop dt')
      else Inr release_dt)"
  by pat_completeness auto

text \<open>The number of days from a local datetime to the next Friday (0 on a Friday).\<close>

definition days_to_friday :: "local_dt \<Rightarrow> int" where
  "days_to_friday dt = (if weekday dt \<le> 4 then 4 - weekday dt else 11 - weekday dt)"

lemma mod7_succ: "((n::int) + 1) mod 7 = (if n mod 7 = 6 then 0 else n mod 7 + 1)"
proof -
  have r: "0 \<le> n mod 7" "n mod 7 < 7" by simp_all
  have "(n + 1) mod 7 = (n mod 7 + 1) mod 7" by (simp add: mod_add_left_eq)
  also have "\<dots> = (if n mod 7 = 6 then 0 else n mod 7 + 1)"
    using r by simp
  finally show ?thesis .
qed

lemma weekday_range: "0 \<le> weekday dt \<and> weekday dt < 7"
  by (simp add: weekday_def)

lemma weekday_next:
  "weekday (dt\<lparr>toordinal := toordinal dt + 1\<rparr>) = (if weekday dt = 6 then 0 else weekday dt + 1)"
  using mod7_succ[of "toordinal dt + 6"] by (simp add: weekday_def add.commute add.left_commute)

termination friday_loop
proof (relation "measure (\<lambda>dt. nat (days_to_friday dt))")
  show "wf (measure (\<lambda>dt. nat (days_to_friday dt)))" by simp
next
  fix release_dt dt' :: local_dt
  assume ne: "weekday release_dt \<noteq> 4" and add: "add_days release_dt 1 = Inr dt'"
  from add have "dt' = release_dt\<lparr>toordinal := toordinal release_dt + 1\<rparr>"
    by (auto simp: add_days_def split: if_splits)
  then have "weekday dt' = (if weekday release_dt = 6 then 0 else weekday release_dt + 1)"
    by (simp only: weekday_next)
  with ne weekday_range[of release_dt]
  have "days_to_friday dt' < days_to_friday release_dt" "0 \<le> days_to_friday dt'"
    by (auto simp: days_to_friday_def)
  then show "(dt', release_dt) \<in> measure (\<lambda>dt. nat (days_to_friday dt))"
    by simp
qed

declare friday_loop.simps [simp del]

definition nfp_release :: "tzinfo \<Rightarrow> date \<Rightarrow> error + int" where
  "nfp_release ny_tz d =
     (case release_year_month d of (release_year, release_month) \<Rightarrow>
        (case datetime release_year release_month 1 8 30 of
           Inl e \<Rightarrow> Inl e
         | Inr dt \<Rightarrow>
             (case friday_loop dt of
                Inl e \<Rightarrow> Inl e
              | Inr release_dt \<Rightarrow> Inr (astimezone_utc ny_tz release_dt))))"

definition get_nfp_release_schedule :: "tzinfo \<Rightarrow> (date \<times> 'v) list \<Rightarrow> error + int list" where
  "get_nfp_release_schedule ny_tz nfp_series = map_result (nfp_release ny_tz) (map fst nfp_series)"

text \<open>
  \<open>get_fomc_decision_times\<close>: one event per date whose rate differs from \<open>prev_rate\<close>
  (or when \<open>prev_rate is None\<close>), at 14:00 local on that date.
  \<open>datetime.combine(date, time(14, 0))\<close> takes the date of an existing timestamp and
  cannot fail.
\<close>

definition combine :: "date \<Rightarrow> int \<Rightarrow> int \<Rightarrow> local_dt" where
  "combine d hh mi =
     \<lparr>toordinal = ymd2ord (year d) (month d) (day d), secs = hh * 3600 + mi * 60\<rparr>"

fun decision_loop :: "tzinfo \<Rightarrow> real option \<Rightarrow> (date \<times> real) list \<Rightarrow> (int \<times> real) list" where
  "decision_loop ny_tz prev_rate [] = []"
| "decision_loop ny_tz prev_rate ((d, rate) # rest) =
     (if prev_rate = None \<or> Some rate \<noteq> prev_rate
      then (astimezone_utc ny_tz (combine d 14 0), rate) # decision_loop ny_tz (Some rate) rest
      else decision_loop ny_tz prev_rate rest)"

definition get_fomc_decision_times :: "tzinfo \<Rightarrow> (date \<times> real) list \<Rightarrow> (int \<times> real) list" where
  "get_fomc_decision_times ny_tz rate_series = decision_loop ny_tz None rate_series"
section \<open>Event aligners\<close>

text \<open>
  The hourly timeline is a list of UTC instants in whole seconds since the epoch (the
  parsed, NaT-free \<open>hourly_index\<close>, a nanosecond \<open>DatetimeIndex\<close>); a column of the output
  frame is a list of optional values of the same length, \<open>None\<close> for NaN.

  \<open>pd.Timestamp.max\<close> is 2262-04-11T23:47:16.854775807Z, the last int64 nanosecond; the
  last whole second at or before it:
\<close>

definition timestamp_max :: int where
  "timestamp_max = 9223372036"

text \<open>\<open>df.loc[(df.index >= lo) & (df.index < hi), col] = v\<close>:\<close>

definition assign_between :: "int \<Rightarrow> int \<Rightarrow> 'v \<Rightarrow> int list \<Rightarrow> 'v option list \<Rightarrow> 'v option list" where
  "assign_between lo hi v hourly_index col =
     map (\<lambda>(t, old). if lo \<le> t \<and> t < hi then Some v else old) (zip hourly_index col)"

text \<open>
  The loop \<open>for i, rel_time in enumerate(release_times)\<close> shared by the CPI, PPI, NFP and
  Fed-funds aligners. \<open>values[i]\<close> is read first and raises IndexError out of range; the
  last release reads \<open>hourly_index[-1] + pd.Timedelta(hours=1)\<close>, which raises IndexError
  on an empty index and OutOfBoundsDatetime when the sum lies after \<open>pd.Timestamp.max\<close>.
\<close>

fun fill_loop :: "int list \<Rightarrow> 'v list \<Rightarrow> int list \<Rightarrow> 'v option list \<Rightarrow> error + 'v option list" where
  "fill_loop [] vals hourly_index col = Inr col"
| "fill_loop (rel_time # rels) [] hourly_index col = Inl IndexError"
| "fill_loop [rel_time] (v # vals) hourly_index col =
     (if hourly_index = [] then Inl IndexError
      else if timestamp_max < last hourly_index + 3600 then Inl OutOfBoundsDatetime
      else Inr (assign_between rel_time (last hourly_index + 3600) v hourly_index col))"
| "fill_loop (rel_time # next_rel_time # rels) (v # vals) hourly_index col =
     fill_loop (next_rel_time # rels) vals hourly_index
       (assign_between rel_time next_rel_time v hourly_index col)"

text \<open>\<open>fillna(method='ffill')\<close> and \<open>fillna(method='bfill')\<close> on one column.\<close>

fun ffill_from :: "'v option \<Rightarrow> 'v option list \<Rightarrow> 'v option list" where
  "ffill_from prev [] = []"
| "ffill_from prev (None # xs) = prev # ffill_from prev xs"
| "ffill_from prev (Some v # xs) = Some v # ffill_from (Some v) xs"

definition ffill :: "'v option list \<Rightarrow> 'v option list" where
  "ffill col = ffill_from None col"

definition bfill :: "'v option list \<Rightarrow> 'v option list" where
  "bfill col = rev (ffill (rev col))"

definition empty_column :: "int list \<Rightarrow> 'v option list" where
  "empty_column hourly_index = replicate (length hourly_index) None"

text \<open>
  \<open>align_cpi_to_hours\<close>: the release times come from the YoY series, the values are
  \<open>list(zip(cpi_yoy.values, cpi_mom.values))\<close>; the result has the two columns CPI_YoY
  and CPI_MoM, each forward-filled.
\<close>

definition align_cpi_to_hours ::
  "tzinfo \<Rightarrow> (date \<times> real) list \<Rightarrow> (date \<times> real) list \<Rightarrow> int list
     \<Rightarrow> error + (real option list \<times> real option list)" where
  "align_cpi_to_hours ny_tz cpi_yoy cpi_mom hourly_index =
     (case get_cpi_release_schedule ny_tz cpi_yoy of
        Inl e \<Rightarrow> Inl e
      | Inr release_datetimes \<Rightarrow>
          (case fill_loop release_datetimes (zip (map snd cpi_yoy) (map snd cpi_mom))
                  hourly_index (empty_column hourly_index) of
             Inl e \<Rightarrow> Inl e
           | Inr df \<Rightarrow> Inr (ffill (map (map_option fst) df), ffill (map (map_option snd) df))))"

definition align_ppi_to_hours ::
  "tzinfo \<Rightarrow> (date \<times> real) list \<Rightarrow> int list \<Rightarrow> error + real option list" where
  "align_ppi_to_hours ny_tz ppi_yoy hourly_index =
     (case get_ppi_release_schedule ny_tz ppi_yoy of
        Inl e \<Rightarrow> Inl e
      | Inr release_times \<Rightarrow>
          (case fill_loop release_times (map snd ppi_yoy) hourly_index (empty_column hourly_index) of
             Inl e \<Rightarrow> Inl e
           | Inr df \<Rightarrow> Inr (ffill df)))"

definition align_nfp_to_hours ::
  "tzinfo \<Rightarrow> (date \<times> real) list \<Rightarrow> int list \<Rightarrow> error + real option list" where
  "align_nfp_to_hours ny_tz nfp_changes hourly_index =
     (case get_nfp_release_schedule ny_tz nfp_changes of
        Inl e \<Rightarrow> Inl e
      | Inr release_times \<Rightarrow>
          (case fill_loop release_times (map snd nfp_changes) hourly_index (empty_column hourly_index) of
             Inl e \<Rightarrow> Inl e
           | Inr df \<Rightarrow> Inr (ffill df)))"

definition align_rate_to_hours :: "(int \<times> real) list \<Rightarrow> int list \<Rightarrow> error + real option list" where
  "align_rate_to_hours rate_changes hourly_index =
     (case fill_loop (map fst rate_changes) (map snd rate_changes) hourly_index
             (empty_column hourly_index) of
        Inl e \<Rightarrow> Inl e
      | Inr df \<Rightarrow> Inr (bfill df))"

text \<open>
  \<open>pd.merge_asof(timeline, releases, on="Datetime", direction="backward")\<close>: for each left
  key the last row of the (sorted) right frame whose key is at most the left key.
\<close>

definition merge_asof_backward :: "int list \<Rightarrow> (int \<times> 'v) list \<Rightarrow> 'v option list" where
  "merge_asof_backward left right =
     map (\<lambda>t. case filter (\<lambda>r. fst r \<le> t) right of [] \<Rightarrow> None | rs \<Rightarrow> Some (snd (last rs))) left"

text \<open>
  \<open>align_to_hourly\<close> (GDP): both frames are sorted by \<open>Datetime\<close>, joined as-of, and the
  value column is filled \<open>.ffill().bfill()\<close>. The result keeps the \<open>Datetime\<close> column.
\<close>

definition align_to_hourly :: "(int \<times> real) list \<Rightarrow> int list \<Rightarrow> (int \<times> real option) list" where
  "align_to_hourly gdp_release_df hourly_index_utc =
     (let timeline = sort hourly_index_utc;
          releases = sort_key fst gdp_release_df;
          out = merge_asof_backward timeline releases
      in zip timeline (bfill (ffill out)))"

section \<open>Sentiment aggregator\<close>

text \<open>
  A row of \<open>df_articles\<close> as \<open>parse_news_feed\<close> builds it: the scores and the url are
  \<open>None\<close> when the feed lacks them. Instants are seconds since the epoch.
\<close>

record article =
  ticker :: string
  time_published :: int
  url :: "string option"
  overall_sentiment_score :: "real option"
  ticker_relevance_score :: "real option"
  ticker_sentiment_score :: "real option"

record hourly_row =
  Datetime :: int
  row_ticker :: string
  news_count :: int
  overall_sentiment_mean :: "real option"
  ticker_sentiment_mean :: "real option"
  ticker_relevance_mean :: "real option"

definition floor_hour :: "int \<Rightarrow> int" where
  "floor_hour t = (t div 3600) * 3600"

text \<open>pandas \<open>mean\<close> and \<open>count\<close> skip missing entries; the mean of nothing is NaN.\<close>

definition present :: "'a option list \<Rightarrow> 'a list" where
  "present xs = map the (filter (\<lambda>x. x \<noteq> None) xs)"

definition mean_skipna :: "real option list \<Rightarrow> real option" where
  "mean_skipna xs =
     (if present xs = [] then None else Some (sum_list (present xs) / real (length (present xs))))"

definition count_notna :: "'a option list \<Rightarrow> int" where
  "count_notna xs = int (length (present xs))"

text \<open>
  The aggregate of one bin, in the order of the \<open>agg\<close> dictionary:
  ticker_sentiment mean, overall_sentiment mean, ticker_relevance mean, url count.
\<close>

definition agg :: "article list \<Rightarrow> real option \<times> real option \<times> real option \<times> int" where
  "agg bin =
     (mean_skipna (map ticker_sentiment_score bin),
      mean_skipna (map overall_sentiment_score bin),
      mean_skipna (map ticker_relevance_score bin),
      count_notna (map url bin))"

text \<open>
  \<open>date_range(start, end, freq="1H")\<close>: the hours from \<open>start\<close> to \<open>end\<close> inclusive, none
  when \<open>end < start\<close>.
\<close>

definition date_range :: "int \<Rightarrow> int \<Rightarrow> int list" where
  "date_range start_hour end_hour =
     (if end_hour < start_hour then []
      else map (\<lambda>k. start_hour + 3600 * int k) [0..<nat ((end_hour - start_hour) div 3600) + 1])"

text \<open>
  \<open>df.groupby("ticker").resample("1H").agg(...)\<close> for one ticker: one row per hour from
  the group's first to its last bin.
\<close>

definition resample_agg ::
  "article list \<Rightarrow> (int \<times> real option \<times> real option \<times> real option \<times> int) list" where
  "resample_agg grp =
     (let hours = map (\<lambda>a. floor_hour (time_published a)) grp
      in map (\<lambda>h. (h, agg (filter (\<lambda>a. floor_hour (time_published a) = h) grp)))
           (date_range (Min (set hours)) (Max (set hours))))"

text \<open>
  \<open>h_t.reindex(all_hours)\<close>, \<open>news_count.fillna(0).astype(int)\<close>, the means left as they
  are, and the ticker column. The frames of all tickers (\<open>groupby\<close> lists them in sorted
  order) are concatenated and sorted by ticker and hour.
\<close>

definition reindex_row ::
  "string \<Rightarrow> (int \<times> real option \<times> real option \<times> real option \<times> int) list \<Rightarrow> int \<Rightarrow> hourly_row" where
  "reindex_row t h_t h =
     (case map_of h_t h of
        None \<Rightarrow>
          \<lparr>Datetime = h, row_ticker = t, news_count = 0, overall_sentiment_mean = None,
           ticker_sentiment_mean = None, ticker_relevance_mean = None\<rparr>
      | Some (ts_mean, os_mean, tr_mean, n) \<Rightarrow>
          \<lparr>Datetime = h, row_ticker = t, news_count = n, overall_sentiment_mean = os_mean,
           ticker_sentiment_mean = ts_mean, ticker_relevance_mean = tr_mean\<rparr>)"

definition aggregate_to_hourly :: "article list \<Rightarrow> int \<Rightarrow> int \<Rightarrow> hourly_row list" where
  "aggregate_to_hourly df_articles start_dt_utc end_dt_utc =
     (if df_articles = [] then []
      else
        let all_hours = date_range (floor_hour start_dt_utc) (floor_hour end_dt_utc);
            tickers = sort (remdups (map ticker df_articles));
            frames = map (\<lambda>t.
              let h_t = resample_agg (filter (\<lambda>a. ticker a = t) df_articles)
              in map (reindex_row t h_t) all_hours) tickers
        in sort_key (\<lambda>r. (row_ticker r, Datetime r)) (concat frames))"

section \<open>Notions used to state the properties\<close>

text \<open>The records of ticker \<open>t\<close> published in the hour starting at \<open>h\<close>.\<close>

definition bucket :: "article list \<Rightarrow> string \<Rightarrow> int \<Rightarrow> article list" where
  "bucket df t h = filter (\<lambda>a. ticker a = t \<and> floor_hour (time_published a) = h) df"

text \<open>The output row of ticker \<open>t\<close> and hour \<open>h\<close> computed from the records \<open>B\<close>.\<close>

definition mk_row :: "string \<Rightarrow> int \<Rightarrow> article list \<Rightarrow> hourly_row" where
  "mk_row t h B =
     \<lparr>Datetime = h, row_ticker = t, news_count = count_notna (map url B),
      overall_sentiment_mean = mean_skipna (map overall_sentiment_score B),
      ticker_sentiment_mean = mean_skipna (map ticker_sentiment_score B),
      ticker_relevance_mean = mean_skipna (map ticker_relevance_score B)\<rparr>"

text \<open>The arithmetic mean of a list of numbers.\<close>

definition arithmetic_mean :: "real list \<Rightarrow> real" where
  "arithmetic_mean xs = sum_list xs / real (length xs)"

text \<open>The local datetime 08:30 on the civil date \<open>y-m-d\<close> (the canonical release hour).\<close>

definition local_0830 :: "int \<Rightarrow> int \<Rightarrow> int \<Rightarrow> local_dt" where
  "local_0830 y m d = \<lparr>toordinal = ymd2ord y m d, secs = 8 * 3600 + 30 * 60\<rparr>"

text \<open>The month after the observation's month, the year rolling over after December.\<close>

definition next_month :: "date \<Rightarrow> int \<times> int" where
  "next_month obs = (if month obs = 12 then (year obs + 1, 1) else (year obs, month obs + 1))"

text \<open>
  The value of the last-listed event of \<open>events\<close> released at or before \<open>t\<close>, if any.
\<close>

definition last_le :: "(int \<times> 'v) list \<Rightarrow> int \<Rightarrow> 'v option" where
  "last_le events t =
     (case filter (\<lambda>e. fst e \<le> t) events of [] \<Rightarrow> None | rs \<Rightarrow> Some (snd (last rs)))"

text \<open>
  \<open>v\<close> is the value of an event with the greatest release instant at or before \<open>t\<close>.
\<close>

definition is_asof_value :: "(int \<times> 'v) list \<Rightarrow> int \<Rightarrow> 'v \<Rightarrow> bool" where
  "is_asof_value events t v =
     (\<exists>e\<in>set events. fst e \<le> t \<and> snd e = v \<and> (\<forall>e'\<in>set events. fst e' \<le> t \<longrightarrow> fst e' \<le> fst e))"

text \<open>Some event of \<open>events\<close> was released at or before \<open>t\<close>.\<close>

definition released_by :: "(int \<times> 'v) list \<Rightarrow> int \<Rightarrow> bool" where
  "released_by events t = (\<exists>e\<in>set events. fst e \<le> t)"

text \<open>
  The as-of slot without lookahead: the slot of the instant \<open>t\<close> holds the value of an
  event with the greatest release instant at or before \<open>t\<close>, and is absent when no event
  was released by \<open>t\<close>.
\<close>

definition asof_slot :: "(int \<times> 'v) list \<Rightarrow> int \<Rightarrow> 'v option \<Rightarrow> bool" where
  "asof_slot events t x =
     (case x of None \<Rightarrow> \<not> released_by events t | Some v \<Rightarrow> is_asof_value events t v)"


text \<open>
  The release events of a series under a per-observation release rule: every
  observation paired with the release instant of its own date, in the order of the
  series (an observation whose release instant does not exist has no event).
\<close>

fun release_events :: "(date \<Rightarrow> error + int) \<Rightarrow> (date \<times> 'v) list \<Rightarrow> (int \<times> 'v) list" where
  "release_events release [] = []"
| "release_events release ((d, v) # series) =
     (case release d of
        Inl e \<Rightarrow> release_events release series
      | Inr r \<Rightarrow> (r, v) # release_events release series)"


section \<open>Example data\<close>

text \<open>
  The scenario of the specification: releases on 2023-02-03T13:30Z (value 1.0) and
  2023-03-03T13:30Z (value 1.2); a timeline of 2023-02-01T00:00Z, 2023-02-03T14:00Z and
  2023-04-01T00:00Z; and the same timeline without its middle point.
\<close>

definition spec_events :: "(int \<times> real) list" where
  "spec_events = [(1675431000, 1.0), (1677850200, 1.2)]"

definition spec_timeline :: "int list" where
  "spec_timeline = [1675209600, 1675432800, 1680307200]"

definition sparse_timeline :: "int list" where
  "sparse_timeline = [1675209600, 1680307200]"

text \<open>
  A timeline of one point, 2262-04-11T23:00Z, the last whole hour of the timestamp range.
\<close>

definition late_timeline :: "int list" where
  "late_timeline = [9223369200]"

text \<open>
  Two monthly CPI observations (December 2022 and January 2023) with their YoY and MoM
  rates; their releases fall on 2023-01-10 and 2023-02-10, 13:30Z under \<open>est\<close>.
\<close>

definition cpi_yoy_example :: "(date \<times> real) list" where
  "cpi_yoy_example =
     [(\<lparr>year = 2022, month = 12, day = 1\<rparr>, 6.5), (\<lparr>year = 2023, month = 1, day = 1\<rparr>, 6.4)]"

definition cpi_mom_example :: "(date \<times> real) list" where
  "cpi_mom_example =
     [(\<lparr>year = 2022, month = 12, day = 1\<rparr>, 0.1), (\<lparr>year = 2023, month = 1, day = 1\<rparr>, 0.5)]"

text \<open>
  A MoM series that starts one month before the YoY series, as when the two series lose
  different numbers of leading months.
\<close>

definition cpi_mom_longer_example :: "(date \<times> real) list" where
  "cpi_mom_longer_example =
     [(\<lparr>year = 2022, month = 11, day = 1\<rparr>, 0.2), (\<lparr>year = 2022, month = 12, day = 1\<rparr>, 0.1),
      (\<lparr>year = 2023, month = 1, day = 1\<rparr>, 0.5)]"

text \<open>
  Three articles on one ticker: two in the hour starting at 0, of which the second
  carries no score, and one without any score in the hour starting at 3600.
\<close>

definition news_example :: "article list" where
  "news_example =
     [\<lparr>ticker = ''AAPL'', time_published = 600, url = Some ''u1'',
       overall_sentiment_score = Some 0.5, ticker_relevance_score = Some 0.25,
       ticker_sentiment_score = Some 0.75\<rparr>,
      \<lparr>ticker = ''AAPL'', time_published = 1200, url = Some ''u2'',
       overall_sentiment_score = None, ticker_relevance_score = None,
       ticker_sentiment_score = None\<rparr>,
      \<lparr>ticker = ''AAPL'', time_published = 4000, url = Some ''u3'',
       overall_sentiment_score = None, ticker_relevance_score = None,
       ticker_sentiment_score = None\<rparr>]"


section \<open>Calendar facts\<close>

lemma days_before_year_bounds:
  assumes "1 \<le> y"
  shows "365 * (y - 1) \<le> days_before_year y" "days_before_year y \<le> 366 * (y - 1)"
proof -
  define z where "z = y - 1"
  define A B C where "A = z div 4" and "B = z div 100" and "C = z div 400"
  have z: "0 \<le> z" using assms by (simp add: z_def)
  have a: "4 * A \<le> z" and d: "400 * C \<le> z" and b: "0 \<le> C" "0 \<le> B"
    using z by (simp_all add: pos_imp_zdiv_nonneg_iff A_def B_def C_def)
  have c: "B \<le> A" unfolding A_def B_def using z by (intro zdiv_mono2) simp_all
  have eq: "days_before_year y = z * 365 + A - B + C"
    by (simp add: days_before_year_def z_def A_def B_def C_def)
  show "365 * (y - 1) \<le> days_before_year y"
    using z a b c d unfolding eq by (simp add: z_def)
  show "days_before_year y \<le> 366 * (y - 1)"
    using z a b c d unfolding eq z_def[symmetric] by linarith
qed

lemma days_before_month_bounds: "0 \<le> days_before_month y m" "days_before_month y m \<le> 335"
  by (simp_all add: days_before_month_def)

lemma mod7_small: "0 \<le> x \<Longrightarrow> x < 14 \<Longrightarrow> (x::int) mod 7 = (if x < 7 then x else x - 7)"
proof (cases "x < 7")
  case True
  assume "0 \<le> x" with True show ?thesis by simp
next
  case False
  assume "x < 14"
  with False have "0 \<le> x - 7" "x - 7 < 7" by simp_all
  then have "(x - 7) mod 7 = x - 7" by (rule mod_pos_pos_trivial)
  moreover have "x mod 7 = (x - 7) mod 7" by (simp only: minus_mod_self2)
  ultimately show ?thesis using False by (simp only: if_False)
qed

lemma weekday_plus:
  "0 \<le> j \<Longrightarrow> j < 7 \<Longrightarrow> weekday (dt\<lparr>toordinal := toordinal dt + j\<rparr>) =
     (if weekday dt + j < 7 then weekday dt + j else weekday dt + j - 7)"
proof -
  assume j: "0 \<le> j" "j < 7"
  have "weekday (dt\<lparr>toordinal := toordinal dt + j\<rparr>) = (toordinal dt + j + 6) mod 7"
    by (simp add: weekday_def)
  also have "\<dots> = (toordinal dt + 6 + j) mod 7"
    by (rule arg_cong[where f = "\<lambda>x. x mod 7"]) linarith
  also have "\<dots> = ((toordinal dt + 6) mod 7 + j) mod 7"
    by (simp only: mod_add_left_eq)
  finally have "weekday (dt\<lparr>toordinal := toordinal dt + j\<rparr>) = (weekday dt + j) mod 7"
    by (simp only: weekday_def)
  then show ?thesis
    using j weekday_range[of dt] mod7_small[of "weekday dt + j"] by simp
qed

section \<open>The weekend loop and the Friday loop\<close>

lemma weekend_loop_roll:
  assumes "1 \<le> y" "y \<le> 9999" "1 \<le> m" "m \<le> 12" "1 \<le> d" "d \<le> 26"
  shows "weekend_loop y m d = Inr \<lparr>toordinal = ymd2ord y m d +
            (if (ymd2ord y m d + 6) mod 7 = 5 then 2 else if (ymd2ord y m d + 6) mod 7 = 6 then 1 else 0),
            secs = 30600\<rparr>"
proof -
  let ?n = "ymd2ord y m d"
  have dt: "\<And>k. 0 \<le> k \<Longrightarrow> k \<le> 2 \<Longrightarrow>
    datetime y m (d + k) 8 30 = Inr \<lparr>toordinal = ?n + k, secs = 30600\<rparr>"
    using assms by (simp add: datetime_def days_in_month_def ymd2ord_def)
  have wd: "\<And>k. weekday \<lparr>toordinal = ?n + k, secs = 30600\<rparr> = (?n + 6 + k) mod 7"
    by (simp add: weekday_def add.commute add.left_commute)
  have unf: "\<And>k. 0 \<le> k \<Longrightarrow> k \<le> 2 \<Longrightarrow> weekend_loop y m (d + k) =
      (if (?n + 6 + k) mod 7 \<ge> 5 then weekend_loop y m (d + k + 1)
       else Inr \<lparr>toordinal = ?n + k, secs = 30600\<rparr>)"
    by (subst weekend_loop.simps) (simp add: dt wd)
  have s1: "(?n + 6 + 1) mod 7 = (if (?n + 6) mod 7 = 6 then 0 else (?n + 6) mod 7 + 1)"
    by (rule mod7_succ)
  have s2: "(?n + 6 + 2) mod 7 = (if (?n + 6 + 1) mod 7 = 6 then 0 else (?n + 6 + 1) mod 7 + 1)"
    using mod7_succ[of "?n + 6 + 1"] by (simp add: add.assoc)
  have rng: "0 \<le> (?n + 6) mod 7" "(?n + 6) mod 7 < 7" by simp_all
  have u0: "weekend_loop y m d = (if (?n + 6) mod 7 \<ge> 5 then weekend_loop y m (d + 1)
       else Inr \<lparr>toordinal = ?n, secs = 30600\<rparr>)"
    using unf[of 0] by simp
  have u1: "weekend_loop y m (d + 1) = (if (?n + 6 + 1) mod 7 \<ge> 5 then weekend_loop y m (d + 2)
       else Inr \<lparr>toordinal = ?n + 1, secs = 30600\<rparr>)"
    using unf[of 1] by (simp add: add.assoc)
  have u2: "weekend_loop y m (d + 2) = (if (?n + 6 + 2) mod 7 \<ge> 5 then weekend_loop y m (d + 3)
       else Inr \<lparr>toordinal = ?n + 2, secs = 30600\<rparr>)"
    using unf[of 2] by (simp add: add.assoc)
  consider (sat) "(?n + 6) mod 7 = 5" | (sun) "(?n + 6) mod 7 = 6" | (wk) "(?n + 6) mod 7 < 5"
    using rng by linarith
  then show ?thesis
  proof cases
    case sat
    then show ?thesis using u0 u1 u2 s1 s2 by simp
  next
    case sun
    then show ?thesis using u0 u1 s1 by simp
  next
    case wk
    then show ?thesis using u0 by simp
  qed
qed

lemma friday_loop_result:
  "1 \<le> toordinal dt \<Longrightarrow> toordinal dt + days_to_friday dt \<le> max_ordinal \<Longrightarrow>
   friday_loop dt = Inr (dt\<lparr>toordinal := toordinal dt + days_to_friday dt\<rparr>)"
proof (induction dt rule: friday_loop.induct)
  case (1 dt)
  show ?case
  proof (cases "weekday dt = 4")
    case True
    then show ?thesis by (subst friday_loop.simps) (simp add: days_to_friday_def)
  next
    case False
    define dt' where "dt' = dt\<lparr>toordinal := toordinal dt + 1\<rparr>"
    have wd': "weekday dt' = (if weekday dt = 6 then 0 else weekday dt + 1)"
      unfolding dt'_def by (rule weekday_next)
    have step: "days_to_friday dt' = days_to_friday dt - 1" and pos: "1 \<le> days_to_friday dt"
      using False weekday_range[of dt] wd' by (auto simp: days_to_friday_def)
    have add: "add_days dt 1 = Inr dt'"
      using "1.prems" pos by (simp add: add_days_def dt'_def)
    have "friday_loop dt' = Inr (dt'\<lparr>toordinal := toordinal dt' + days_to_friday dt'\<rparr>)"
      using "1.IH"[OF False add] "1.prems" step by (simp add: dt'_def)
    then show ?thesis
      using False add step by (subst friday_loop.simps) (simp add: dt'_def)
  qed
qed

lemma days_to_friday_props:
  "0 \<le> days_to_friday dt" "days_to_friday dt \<le> 6"
  "weekday (dt\<lparr>toordinal := toordinal dt + days_to_friday dt\<rparr>) = 4"
  "0 \<le> j \<Longrightarrow> j < days_to_friday dt \<Longrightarrow> weekday (dt\<lparr>toordinal := toordinal dt + j\<rparr>) \<noteq> 4"
proof -
  show g: "0 \<le> days_to_friday dt" "days_to_friday dt \<le> 6"
    using weekday_range[of dt] by (auto simp: days_to_friday_def)
  show "weekday (dt\<lparr>toordinal := toordinal dt + days_to_friday dt\<rparr>) = 4"
    using weekday_plus[of "days_to_friday dt" dt] g weekday_range[of dt]
    by (auto simp: days_to_friday_def)
  show "0 \<le> j \<Longrightarrow> j < days_to_friday dt \<Longrightarrow> weekday (dt\<lparr>toordinal := toordinal dt + j\<rparr>) \<noteq> 4"
    using weekday_plus[of j dt] g weekday_range[of dt]
    by (auto simp: days_to_friday_def split: if_splits)
qed

lemma map_result_Inr:
  "(\<And>x. x \<in> set xs \<Longrightarrow> f x = Inr (g x)) \<Longrightarrow> map_result f xs = Inr (map g xs)"
  by (induction xs) simp_all




section \<open>Facts about the release schedulers\<close>

lemma release_year_month_next: "release_year_month obs = next_month obs"
  by (simp add: release_year_month_def next_month_def)

lemma next_month_valid:
  assumes "timestamp_ok obs" "next_month obs = (y, m)"
  shows "1 \<le> y" "y \<le> 9999" "1 \<le> m" "m \<le> 12" "y \<le> 2263"
  using assms by (auto simp: timestamp_ok_def next_month_def split: if_splits)

lemma local_0830_plus: "(local_0830 y m d)\<lparr>toordinal := toordinal (local_0830 y m d) + k\<rparr> = local_0830 y m (d + k)"
  by (simp add: local_0830_def ymd2ord_def)

lemma weekday_local_0830: "weekday (local_0830 y m d) = (ymd2ord y m d + 6) mod 7"
  by (simp add: local_0830_def weekday_def)

lemma weekend_roll_day:
  assumes ok: "timestamp_ok obs" and ym: "next_month obs = (y, m)" and d: "1 \<le> d" "d \<le> 26"
  shows "\<exists>k. 0 \<le> k \<and> weekend_loop y m d = Inr (local_0830 y m (d + k)) \<and>
           weekday (local_0830 y m (d + k)) < 5 \<and>
           (\<forall>j\<in>{0..<k}. weekday (local_0830 y m (d + j)) \<ge> 5) \<and>
           (weekday (local_0830 y m d) = 5 \<longrightarrow> k = 2 \<and> weekday (local_0830 y m (d + 2)) = 0)"
proof -
  let ?n = "ymd2ord y m d"
  let ?w = "(?n + 6) mod 7"
  define k :: int where "k = (if ?w = 5 then 2 else if ?w = 6 then 1 else 0)"
  note v = next_month_valid[OF ok ym]
  have loop: "weekend_loop y m d = Inr (local_0830 y m (d + k))"
    using weekend_loop_roll[OF v(1-4) d] by (simp add: k_def local_0830_def ymd2ord_def)
  have rng: "0 \<le> ?w" "?w < 7" by simp_all
  have s1: "(?n + 6 + 1) mod 7 = (if ?w = 6 then 0 else ?w + 1)"
    by (rule mod7_succ)
  have s2: "(?n + 6 + 2) mod 7 = (if (?n + 6 + 1) mod 7 = 6 then 0 else (?n + 6 + 1) mod 7 + 1)"
    using mod7_succ[of "?n + 6 + 1"] by (simp add: add.assoc)
  have w: "weekday (local_0830 y m (d + j)) = (?n + 6 + j) mod 7" for j
  proof -
    have "ymd2ord y m (d + j) + 6 = ?n + 6 + j" by (simp add: ymd2ord_def)
    then show ?thesis by (simp only: weekday_local_0830)
  qed
  have w0: "weekday (local_0830 y m d) = ?w"
    by (simp add: weekday_local_0830)
  have k0: "0 \<le> k" by (simp add: k_def)
  have res: "weekday (local_0830 y m (d + k)) < 5"
    using rng s1 s2 by (auto simp: w k_def)
  have before: "\<forall>j\<in>{0..<k}. weekday (local_0830 y m (d + j)) \<ge> 5"
  proof
    fix j assume "j \<in> {0..<k}"
    then have "j = 0 \<or> j = 1" "j < k" by (auto simp: k_def split: if_splits)
    then show "weekday (local_0830 y m (d + j)) \<ge> 5"
      using rng s1 by (auto simp: w k_def split: if_splits)
  qed
  have sat: "weekday (local_0830 y m d) = 5 \<longrightarrow> k = 2 \<and> weekday (local_0830 y m (d + 2)) = 0"
    using s1 s2 by (auto simp: w w0 k_def)
  show ?thesis using k0 loop res before sat by blast
qed


lemma decision_loop_zip:
  "decision_loop tz prev series =
     map (\<lambda>((d, rate), p). (astimezone_utc tz (combine d 14 0), rate))
       (filter (\<lambda>((d, rate), p). p \<noteq> Some rate)
          (zip series (prev # map (\<lambda>x. Some (snd x)) series)))"
proof (induction series arbitrary: prev)
  case Nil
  then show ?case by simp
next
  case (Cons x xs)
  obtain d rate where x: "x = (d, rate)" by (cases x)
  show ?case
  proof (cases "prev = Some rate")
    case True
    then show ?thesis using Cons[of prev] by (simp add: x)
  next
    case False
    then show ?thesis using Cons[of "Some rate"] by (auto simp: x)
  qed
qed

lemmas calendar_eval =
  ymd2ord_def days_before_year_def days_before_month_def days_in_month_def is_leap_def


lemma cpi_release_ok:
  assumes "timestamp_ok obs"
  shows "\<exists>r. cpi_release tz obs = Inr r"
proof -
  obtain y m where ym: "next_month obs = (y, m)" by (cases "next_month obs")
  note v = next_month_valid[OF assms ym]
  from weekend_loop_roll[OF v(1-4), of 10] ym show ?thesis
    by (simp add: cpi_release_def release_year_month_next)
qed

lemma ppi_release_ok:
  assumes "timestamp_ok obs"
  shows "\<exists>r. ppi_release tz obs = Inr r"
proof -
  obtain y m where ym: "next_month obs = (y, m)" by (cases "next_month obs")
  note v = next_month_valid[OF assms ym]
  from weekend_loop_roll[OF v(1-4), of 14] ym show ?thesis
    by (simp add: ppi_release_def release_year_month_next)
qed

lemma map_result_ok:
  "\<forall>x\<in>set xs. \<exists>y. f x = Inr y \<Longrightarrow>
   \<exists>ys. map_result f xs = Inr ys \<and> length ys = length xs"
proof (induction xs)
  case Nil
  then show ?case by simp
next
  case (Cons x xs)
  from Cons.prems obtain y where "f x = Inr y" by auto
  moreover from Cons obtain ys where "map_result f xs = Inr ys" "length ys = length xs" by auto
  ultimately show ?case by simp
qed

lemma cpi_schedule_ok:
  "\<forall>d\<in>set (map fst series). timestamp_ok d \<Longrightarrow>
   \<exists>rels. get_cpi_release_schedule tz series = Inr rels \<and> length rels = length series"
  using map_result_ok[of "map fst series" "cpi_release tz"]
  by (auto simp: get_cpi_release_schedule_def cpi_release_ok)

lemma ppi_schedule_ok:
  "\<forall>d\<in>set (map fst series). timestamp_ok d \<Longrightarrow>
   \<exists>rels. get_ppi_release_schedule tz series = Inr rels \<and> length rels = length series"
  using map_result_ok[of "map fst series" "ppi_release tz"]
  by (auto simp: get_ppi_release_schedule_def ppi_release_ok)

lemma nfp_release_day:
  assumes ok: "timestamp_ok obs" and ym: "next_month obs = (y, m)"
  shows "\<exists>k\<in>{1..7}. nfp_release tz obs = Inr (astimezone_utc tz (local_0830 y m k)) \<and>
           weekday (local_0830 y m k) = 4 \<and>
           (\<forall>j\<in>{1..<k}. weekday (local_0830 y m j) \<noteq> 4)"
proof -
  note v = next_month_valid[OF ok ym]
  let ?dt = "local_0830 y m 1"
  define g where "g = days_to_friday ?dt"
  have dt: "datetime y m 1 8 30 = Inr ?dt"
    using v by (simp add: datetime_def days_in_month_def local_0830_def)
  have lo: "1 \<le> toordinal ?dt"
    using days_before_year_bounds(1)[OF v(1)] days_before_month_bounds(1)[of y m] v(1)
    by (simp add: local_0830_def ymd2ord_def)
  have g: "0 \<le> g" "g \<le> 6" unfolding g_def by (rule days_to_friday_props)+
  have hi: "toordinal ?dt + days_to_friday ?dt \<le> max_ordinal"
    using days_before_year_bounds(2)[OF v(1)] days_before_month_bounds(2)[of y m] v(5) g
    by (simp add: local_0830_def ymd2ord_def max_ordinal_def g_def)
  have loop: "friday_loop ?dt = Inr (local_0830 y m (1 + g))"
    using friday_loop_result[OF lo hi] by (simp add: local_0830_plus g_def)
  have rel: "nfp_release tz obs = Inr (astimezone_utc tz (local_0830 y m (1 + g)))"
    using dt loop ym by (simp add: nfp_release_def release_year_month_next)
  have fri: "weekday (local_0830 y m (1 + g)) = 4"
    using days_to_friday_props(3)[of ?dt] by (simp add: local_0830_plus g_def)
  have nofri: "\<forall>j\<in>{1..<1 + g}. weekday (local_0830 y m j) \<noteq> 4"
  proof
    fix j assume "j \<in> {1..<1 + g}"
    then have "0 \<le> j - 1" "j - 1 < days_to_friday ?dt" by (auto simp: g_def)
    from days_to_friday_props(4)[OF this] show "weekday (local_0830 y m j) \<noteq> 4"
      by (simp add: local_0830_plus)
  qed
  have "1 + g \<in> {1..7}" using g by simp
  then show ?thesis using rel fri nofri by blast
qed



lemma nfp_release_ok:
  assumes "timestamp_ok obs"
  shows "\<exists>r. nfp_release tz obs = Inr r"
proof -
  obtain y m where ym: "next_month obs = (y, m)" by (cases "next_month obs")
  from nfp_release_day[OF assms ym, of tz] show ?thesis by blast
qed

lemma nfp_schedule_ok:
  "\<forall>d\<in>set (map fst series). timestamp_ok d \<Longrightarrow>
   \<exists>rels. get_nfp_release_schedule tz series = Inr rels \<and> length rels = length series"
  using map_result_ok[of "map fst series" "nfp_release tz"]
  by (auto simp: get_nfp_release_schedule_def nfp_release_ok)


section \<open>Months follow each other\<close>










section \<open>Release instants of successive months\<close>








section \<open>Properties of the release schedulers\<close>

text \<open>
  Claim C5 (weekend roll). For an observation of a pandas series, let \<open>(y, m)\<close> be the
  month after the observation's month. The CPI scheduler releases at 08:30 local time on
  day \<open>10 + k\<close> of that month and the PPI scheduler on day \<open>14 + k\<close>, where \<open>k \<ge> 0\<close> (the
  date never moves backward), the release day is a weekday (Monday to Friday), and every
  day from the target up to the release day is a Saturday or Sunday: the release day is
  the nearest weekday on or after the target. A target that is a Saturday rolls two days,
  to a Monday (the 10th to the 12th).
\<close>

theorem weekend_roll_correct:
  assumes "timestamp_ok obs" and "next_month obs = (y, m)"
  shows "(\<exists>k. 0 \<le> k \<and> cpi_release tz obs = Inr (astimezone_utc tz (local_0830 y m (10 + k))) \<and>
           weekday (local_0830 y m (10 + k)) < 5 \<and>
           (\<forall>j\<in>{0..<k}. weekday (local_0830 y m (10 + j)) \<ge> 5) \<and>
           (weekday (local_0830 y m 10) = 5 \<longrightarrow> k = 2 \<and> weekday (local_0830 y m 12) = 0)) \<and>
         (\<exists>k. 0 \<le> k \<and> ppi_release tz obs = Inr (astimezone_utc tz (local_0830 y m (14 + k))) \<and>
           weekday (local_0830 y m (14 + k)) < 5 \<and>
           (\<forall>j\<in>{0..<k}. weekday (local_0830 y m (14 + j)) \<ge> 5) \<and>
           (weekday (local_0830 y m 14) = 5 \<longrightarrow> k = 2 \<and> weekday (local_0830 y m 16) = 0))"
proof
  from weekend_roll_day[OF assms, of 10] obtain k where
    k: "0 \<le> k" "weekend_loop y m 10 = Inr (local_0830 y m (10 + k))"
       "weekday (local_0830 y m (10 + k)) < 5"
       "\<forall>j\<in>{0..<k}. weekday (local_0830 y m (10 + j)) \<ge> 5"
       "weekday (local_0830 y m 10) = 5 \<longrightarrow> k = 2 \<and> weekday (local_0830 y m (10 + 2)) = 0"
    by auto
  have "cpi_release tz obs = Inr (astimezone_utc tz (local_0830 y m (10 + k)))"
    using k(2) assms(2) by (simp add: cpi_release_def release_year_month_next)
  with k show "\<exists>k. 0 \<le> k \<and> cpi_release tz obs = Inr (astimezone_utc tz (local_0830 y m (10 + k))) \<and>
           weekday (local_0830 y m (10 + k)) < 5 \<and>
           (\<forall>j\<in>{0..<k}. weekday (local_0830 y m (10 + j)) \<ge> 5) \<and>
           (weekday (local_0830 y m 10) = 5 \<longrightarrow> k = 2 \<and> weekday (local_0830 y m 12) = 0)"
    by auto
next
  from weekend_roll_day[OF assms, of 14] obtain k where
    k: "0 \<le> k" "weekend_loop y m 14 = Inr (local_0830 y m (14 + k))"
       "weekday (local_0830 y m (14 + k)) < 5"
       "\<forall>j\<in>{0..<k}. weekday (local_0830 y m (14 + j)) \<ge> 5"
       "weekday (local_0830 y m 14) = 5 \<longrightarrow> k = 2 \<and> weekday (local_0830 y m (14 + 2)) = 0"
    by auto
  have "ppi_release tz obs = Inr (astimezone_utc tz (local_0830 y m (14 + k)))"
    using k(2) assms(2) by (simp add: ppi_release_def release_year_month_next)
  with k show "\<exists>k. 0 \<le> k \<and> ppi_release tz obs = Inr (astimezone_utc tz (local_0830 y m (14 + k))) \<and>
           weekday (local_0830 y m (14 + k)) < 5 \<and>
           (\<forall>j\<in>{0..<k}. weekday (local_0830 y m (14 + j)) \<ge> 5) \<and>
           (weekday (local_0830 y m 14) = 5 \<longrightarrow> k = 2 \<and> weekday (local_0830 y m 16) = 0)"
    by auto
qed


theorem weekend_roll_correct_witness:
  "timestamp_ok \<lparr>year = 2023, month = 5, day = 1\<rparr> \<and>
   next_month \<lparr>year = 2023, month = 5, day = 1\<rparr> = (2023, 6) \<and>
   weekday (local_0830 2023 6 10) = 5 \<and>
   cpi_release est \<lparr>year = 2023, month = 5, day = 1\<rparr> = Inr (astimezone_utc est (local_0830 2023 6 12))"
proof -
  let ?obs = "\<lparr>year = 2023, month = 5, day = 1\<rparr>"
  have ok: "timestamp_ok ?obs" by (simp add: timestamp_ok_def days_in_month_def)
  have nm: "next_month ?obs = (2023, 6)" by (simp add: next_month_def)
  have sat: "weekday (local_0830 2023 6 10) = 5"
    by (simp add: weekday_local_0830 calendar_eval)
  from weekend_roll_correct[OF ok nm, of est] obtain k where
    k: "cpi_release est ?obs = Inr (astimezone_utc est (local_0830 2023 6 (10 + k)))"
       "weekday (local_0830 2023 6 10) = 5 \<longrightarrow> k = 2 \<and> weekday (local_0830 2023 6 12) = 0"
    by blast
  from k(2) sat have "k = 2" by simp
  with k(1) have "cpi_release est ?obs = Inr (astimezone_utc est (local_0830 2023 6 12))" by simp
  with ok nm sat show ?thesis by simp
qed

text \<open>
  Claim C6 (first Friday, NFP). For an observation of a pandas series dated in month M of
  year Y, let \<open>(y, m)\<close> be the following month (January of year Y + 1 after December). The
  NFP scheduler releases on day \<open>k\<close> of that month, where \<open>k\<close> is between 1 and 7, day \<open>k\<close>
  is a Friday and no earlier day of the month is: the first Friday. The release instant
  is 08:30 wall-clock time on that day converted to UTC: the seconds from the epoch
  (1970-01-01, ordinal 719163) to 08:30 of that day, minus the UTC offset that the zone
  gives to this local datetime (\<open>-18000\<close> for New York in winter, \<open>-14400\<close> in summer).
\<close>

theorem nfp_first_friday_correct:
  assumes "timestamp_ok obs" and "next_month obs = (y, m)"
  shows "\<exists>k\<in>{1..7}.
           nfp_release tz obs
             = Inr ((ymd2ord y m k - 719163) * 86400 + 8 * 3600 + 30 * 60 - tz (local_0830 y m k)) \<and>
           weekday (local_0830 y m k) = 4 \<and>
           (\<forall>j\<in>{1..<k}. weekday (local_0830 y m j) \<noteq> 4)"
  using nfp_release_day[OF assms, of tz] by (simp add: astimezone_utc_def local_0830_def)

theorem nfp_first_friday_correct_witness:
  "timestamp_ok \<lparr>year = 2023, month = 12, day = 1\<rparr> \<and>
   next_month \<lparr>year = 2023, month = 12, day = 1\<rparr> = (2024, 1) \<and>
   weekday (local_0830 2024 1 5) = 4 \<and>
   list_all (\<lambda>j. weekday (local_0830 2024 1 j) \<noteq> 4) [1, 2, 3, 4] \<and>
   nfp_release est \<lparr>year = 2023, month = 12, day = 1\<rparr> = Inr 1704461400"
proof -
  let ?obs = "\<lparr>year = 2023, month = 12, day = 1\<rparr>"
  have ok: "timestamp_ok ?obs" by (simp add: timestamp_ok_def days_in_month_def)
  have nm: "next_month ?obs = (2024, 1)" by (simp add: next_month_def)
  have w: "weekday (local_0830 2024 1 1) = 0" "weekday (local_0830 2024 1 2) = 1"
    "weekday (local_0830 2024 1 3) = 2" "weekday (local_0830 2024 1 4) = 3"
    "weekday (local_0830 2024 1 5) = 4"
    by (simp_all add: weekday_local_0830 calendar_eval)
  from nfp_first_friday_correct[OF ok nm, of est] obtain k where
    k: "k \<in> {1..7}"
       "nfp_release est ?obs
          = Inr ((ymd2ord 2024 1 k - 719163) * 86400 + 8 * 3600 + 30 * 60 - est (local_0830 2024 1 k))"
       "weekday (local_0830 2024 1 k) = 4"
       "\<forall>j\<in>{1..<k}. weekday (local_0830 2024 1 j) \<noteq> 4"
    by blast
  from k(1) have "k = 1 \<or> k = 2 \<or> k = 3 \<or> k = 4 \<or> k = 5 \<or> k = 6 \<or> k = 7" by auto
  moreover have "k \<noteq> 1" "k \<noteq> 2" "k \<noteq> 3" "k \<noteq> 4" using k(3) w(1-4) by auto
  moreover have "k \<noteq> 6" "k \<noteq> 7" using k(4) w(5) by auto
  ultimately have k5: "k = 5" by blast
  have "nfp_release est ?obs = Inr 1704461400"
    using k(2) by (simp add: k5 est_def calendar_eval)
  with ok nm w show ?thesis by simp
qed

text \<open>
  Claim C7 (change-triggered Fed funds policy). Pair every observation of the daily rate
  series with the value of the observation immediately before it (\<open>None\<close> for the first
  one). The decision list holds, in order, exactly the observations that are the first
  one or whose rate differs from the preceding value, each as the instant of 14:00 local
  time on its date converted to UTC, with the new rate as value.
\<close>

theorem fomc_change_triggered:
  "get_fomc_decision_times tz rate_series =
     map (\<lambda>((d, rate), preceding). (astimezone_utc tz (combine d 14 0), rate))
       (filter (\<lambda>((d, rate), preceding). preceding = None \<or> preceding \<noteq> Some rate)
          (zip rate_series (None # map (\<lambda>obs. Some (snd obs)) rate_series)))"
proof -
  have "(\<lambda>((d::date, rate::real), p). p = None \<or> p \<noteq> Some rate) = (\<lambda>((d, rate), p). p \<noteq> Some rate)"
    by auto
  then show ?thesis
    by (simp add: get_fomc_decision_times_def decision_loop_zip)
qed

theorem fomc_change_triggered_witness:
  "get_fomc_decision_times est
     [(\<lparr>year = 2023, month = 1, day = 31\<rparr>, 4.5), (\<lparr>year = 2023, month = 2, day = 1\<rparr>, 4.5),
      (\<lparr>year = 2023, month = 2, day = 2\<rparr>, 4.75), (\<lparr>year = 2023, month = 2, day = 3\<rparr>, 4.75),
      (\<lparr>year = 2023, month = 2, day = 4\<rparr>, 4.5)]
   = [(1675191600, 4.5), (1675364400, 4.75), (1675537200, 4.5)]"
  by (subst fomc_change_triggered)
     (simp add: astimezone_utc_def combine_def est_def calendar_eval)






section \<open>Facts about the interval loop and the fills\<close>

lemma last_le_Nil [simp]: "last_le [] t = None"
  by (simp add: last_le_def)

lemma last_le_Cons:
  "last_le (e # es) t =
     (case last_le es t of Some w \<Rightarrow> Some w | None \<Rightarrow> if fst e \<le> t then Some (snd e) else None)"
  by (auto simp: last_le_def split: list.splits)

lemma last_le_None_iff: "last_le es t = None \<longleftrightarrow> (\<forall>e\<in>set es. t < fst e)"
  by (induction es) (auto simp: last_le_Cons split: option.splits)

lemma last_le_Some_mem:
  "last_le es t = Some v \<Longrightarrow> \<exists>e\<in>set es. fst e \<le> t \<and> snd e = v"
  by (induction es) (auto simp: last_le_Cons split: option.splits if_splits)


lemma length_assign_between [simp]:
  "length (assign_between lo hi v hs col) = min (length hs) (length col)"
  by (simp add: assign_between_def)



lemma fill_loop_result:
  "(\<exists>out. fill_loop rels vals hs col = Inr out) \<longleftrightarrow>
     (rels = [] \<or> (length rels \<le> length vals \<and> hs \<noteq> [] \<and> last hs + 3600 \<le> timestamp_max))"
  "fill_loop rels vals hs col = Inl IndexError \<longleftrightarrow>
     (rels \<noteq> [] \<and> (length vals < length rels \<or> hs = []))"
  "fill_loop rels vals hs col = Inl OutOfBoundsDatetime \<longleftrightarrow>
     (rels \<noteq> [] \<and> length rels \<le> length vals \<and> hs \<noteq> [] \<and> timestamp_max < last hs + 3600)"
  by (induction rels vals hs col rule: fill_loop.induct) auto

lemma fill_loop_length:
  "fill_loop rels vals hs col = Inr out \<Longrightarrow> length col = length hs \<Longrightarrow> length out = length hs"
  by (induction rels vals hs col rule: fill_loop.induct) (auto split: if_splits)

lemma length_ffill_from [simp]: "length (ffill_from prev xs) = length xs"
  by (induction prev xs rule: ffill_from.induct) simp_all



lemma length_ffill [simp]: "length (ffill xs) = length xs"
  by (simp add: ffill_def)





lemma ffill_all_None: "ffill (replicate n None) = replicate n None"
proof -
  have "ffill_from None (replicate n None) = replicate n (None :: 'a option)"
    by (induction n) simp_all
  then show ?thesis by (simp add: ffill_def)
qed

lemma bfill_all_None: "bfill (replicate n None) = replicate n None"
  by (simp add: bfill_def ffill_all_None)









lemma last_le_exists:
  "\<exists>e\<in>set es. fst e \<le> t \<Longrightarrow> \<exists>v. last_le es t = Some v"
  using last_le_None_iff[of es t] by (cases "last_le es t") auto





lemma ffill_from_Nil_iff [simp]: "ffill_from prev xs = [] \<longleftrightarrow> xs = []"
  using length_ffill_from[of prev xs] by (metis length_0_conv)


lemma bfill_Nil [simp]: "bfill [] = []"
  by (simp add: bfill_def ffill_def)











lemma length_empty_column [simp]: "length (empty_column hs) = length hs"
  by (simp add: empty_column_def)

lemma align_rate_result:
  "(\<exists>out. align_rate_to_hours rc hs = Inr out) \<longleftrightarrow>
     (rc = [] \<or> (hs \<noteq> [] \<and> last hs + 3600 \<le> timestamp_max))"
  "align_rate_to_hours rc hs = Inl IndexError \<longleftrightarrow> (rc \<noteq> [] \<and> hs = [])"
  "align_rate_to_hours rc hs = Inl OutOfBoundsDatetime \<longleftrightarrow>
     (rc \<noteq> [] \<and> hs \<noteq> [] \<and> timestamp_max < last hs + 3600)"
  using fill_loop_result[of "map fst rc" "map snd rc" hs "empty_column hs"]
  by (auto simp: align_rate_to_hours_def split: sum.splits)

lemma interval_aligner_result:
  assumes "length rels = length series"
  shows "(\<exists>out. (case fill_loop rels (map snd series) hs (empty_column hs) of
                    Inl e \<Rightarrow> Inl e | Inr df \<Rightarrow> Inr (ffill df)) = Inr out) \<longleftrightarrow>
           (series = [] \<or> (hs \<noteq> [] \<and> last hs + 3600 \<le> timestamp_max))"
    and "(case fill_loop rels (map snd series) hs (empty_column hs) of
            Inl e \<Rightarrow> Inl e | Inr df \<Rightarrow> Inr (ffill df)) = Inl IndexError \<longleftrightarrow>
           (series \<noteq> [] \<and> hs = [])"
    and "(case fill_loop rels (map snd series) hs (empty_column hs) of
            Inl e \<Rightarrow> Inl e | Inr df \<Rightarrow> Inr (ffill df)) = Inl OutOfBoundsDatetime \<longleftrightarrow>
           (series \<noteq> [] \<and> hs \<noteq> [] \<and> timestamp_max < last hs + 3600)"
proof -
  from assms have e: "rels = [] \<longleftrightarrow> series = []" by auto
  note r = fill_loop_result[of rels "map snd series" hs "empty_column hs"]
  show "(\<exists>out. (case fill_loop rels (map snd series) hs (empty_column hs) of
                    Inl e \<Rightarrow> Inl e | Inr df \<Rightarrow> Inr (ffill df)) = Inr out) \<longleftrightarrow>
           (series = [] \<or> (hs \<noteq> [] \<and> last hs + 3600 \<le> timestamp_max))"
    using r(1) e assms by (auto split: sum.splits)
  show "(case fill_loop rels (map snd series) hs (empty_column hs) of
            Inl e \<Rightarrow> Inl e | Inr df \<Rightarrow> Inr (ffill df)) = Inl IndexError \<longleftrightarrow>
           (series \<noteq> [] \<and> hs = [])"
    using r(2) e assms by (auto split: sum.splits)
  show "(case fill_loop rels (map snd series) hs (empty_column hs) of
            Inl e \<Rightarrow> Inl e | Inr df \<Rightarrow> Inr (ffill df)) = Inl OutOfBoundsDatetime \<longleftrightarrow>
           (series \<noteq> [] \<and> hs \<noteq> [] \<and> timestamp_max < last hs + 3600)"
    using r(3) e assms by (auto split: sum.splits)
qed

lemma align_ppi_result:
  assumes "\<forall>d\<in>set (map fst series). timestamp_ok d"
  shows "(\<exists>out. align_ppi_to_hours tz series hs = Inr out) \<longleftrightarrow>
           (series = [] \<or> (hs \<noteq> [] \<and> last hs + 3600 \<le> timestamp_max))"
    and "align_ppi_to_hours tz series hs = Inl IndexError \<longleftrightarrow> (series \<noteq> [] \<and> hs = [])"
    and "align_ppi_to_hours tz series hs = Inl OutOfBoundsDatetime \<longleftrightarrow>
           (series \<noteq> [] \<and> hs \<noteq> [] \<and> timestamp_max < last hs + 3600)"
proof -
  from ppi_schedule_ok[OF assms, of tz] obtain rels where
    rels: "get_ppi_release_schedule tz series = Inr rels" "length rels = length series" by blast
  show "(\<exists>out. align_ppi_to_hours tz series hs = Inr out) \<longleftrightarrow>
           (series = [] \<or> (hs \<noteq> [] \<and> last hs + 3600 \<le> timestamp_max))"
    using interval_aligner_result(1)[OF rels(2), of hs] rels(1) by (simp add: align_ppi_to_hours_def)
  show "align_ppi_to_hours tz series hs = Inl IndexError \<longleftrightarrow> (series \<noteq> [] \<and> hs = [])"
    using interval_aligner_result(2)[OF rels(2), of hs] rels(1) by (simp add: align_ppi_to_hours_def)
  show "align_ppi_to_hours tz series hs = Inl OutOfBoundsDatetime \<longleftrightarrow>
           (series \<noteq> [] \<and> hs \<noteq> [] \<and> timestamp_max < last hs + 3600)"
    using interval_aligner_result(3)[OF rels(2), of hs] rels(1) by (simp add: align_ppi_to_hours_def)
qed

lemma align_nfp_result:
  assumes "\<forall>d\<in>set (map fst series). timestamp_ok d"
  shows "(\<exists>out. align_nfp_to_hours tz series hs = Inr out) \<longleftrightarrow>
           (series = [] \<or> (hs \<noteq> [] \<and> last hs + 3600 \<le> timestamp_max))"
    and "align_nfp_to_hours tz series hs = Inl IndexError \<longleftrightarrow> (series \<noteq> [] \<and> hs = [])"
    and "align_nfp_to_hours tz series hs = Inl OutOfBoundsDatetime \<longleftrightarrow>
           (series \<noteq> [] \<and> hs \<noteq> [] \<and> timestamp_max < last hs + 3600)"
proof -
  from nfp_schedule_ok[OF assms, of tz] obtain rels where
    rels: "get_nfp_release_schedule tz series = Inr rels" "length rels = length series" by blast
  show "(\<exists>out. align_nfp_to_hours tz series hs = Inr out) \<longleftrightarrow>
           (series = [] \<or> (hs \<noteq> [] \<and> last hs + 3600 \<le> timestamp_max))"
    using interval_aligner_result(1)[OF rels(2), of hs] rels(1) by (simp add: align_nfp_to_hours_def)
  show "align_nfp_to_hours tz series hs = Inl IndexError \<longleftrightarrow> (series \<noteq> [] \<and> hs = [])"
    using interval_aligner_result(2)[OF rels(2), of hs] rels(1) by (simp add: align_nfp_to_hours_def)
  show "align_nfp_to_hours tz series hs = Inl OutOfBoundsDatetime \<longleftrightarrow>
           (series \<noteq> [] \<and> hs \<noteq> [] \<and> timestamp_max < last hs + 3600)"
    using interval_aligner_result(3)[OF rels(2), of hs] rels(1) by (simp add: align_nfp_to_hours_def)
qed

lemma align_cpi_result:
  assumes "\<forall>d\<in>set (map fst cpi_yoy). timestamp_ok d"
  shows "(\<exists>out. align_cpi_to_hours tz cpi_yoy cpi_mom hs = Inr out) \<longleftrightarrow>
           (cpi_yoy = [] \<or>
            (length cpi_yoy \<le> length cpi_mom \<and> hs \<noteq> [] \<and> last hs + 3600 \<le> timestamp_max))"
    and "align_cpi_to_hours tz cpi_yoy cpi_mom hs = Inl IndexError \<longleftrightarrow>
           (cpi_yoy \<noteq> [] \<and> (length cpi_mom < length cpi_yoy \<or> hs = []))"
    and "align_cpi_to_hours tz cpi_yoy cpi_mom hs = Inl OutOfBoundsDatetime \<longleftrightarrow>
           (cpi_yoy \<noteq> [] \<and> length cpi_yoy \<le> length cpi_mom \<and> hs \<noteq> [] \<and>
            timestamp_max < last hs + 3600)"
proof -
  let ?vals = "zip (map snd cpi_yoy) (map snd cpi_mom)"
  from cpi_schedule_ok[OF assms(1), of tz] obtain rels where
    rels: "get_cpi_release_schedule tz cpi_yoy = Inr rels" "length rels = length cpi_yoy" by blast
  then have e: "rels = [] \<longleftrightarrow> cpi_yoy = []" by auto
  have len: "length rels \<le> length ?vals \<longleftrightarrow> length cpi_yoy \<le> length cpi_mom"
    "length ?vals < length rels \<longleftrightarrow> length cpi_mom < length cpi_yoy"
    using rels(2) by auto
  note r = fill_loop_result[of rels ?vals hs "empty_column hs"]
  show "(\<exists>out. align_cpi_to_hours tz cpi_yoy cpi_mom hs = Inr out) \<longleftrightarrow>
           (cpi_yoy = [] \<or>
            (length cpi_yoy \<le> length cpi_mom \<and> hs \<noteq> [] \<and> last hs + 3600 \<le> timestamp_max))"
    using r(1) rels(1) e len by (auto simp: align_cpi_to_hours_def split: sum.splits)
  show "align_cpi_to_hours tz cpi_yoy cpi_mom hs = Inl IndexError \<longleftrightarrow>
           (cpi_yoy \<noteq> [] \<and> (length cpi_mom < length cpi_yoy \<or> hs = []))"
    using r(2) rels(1) e len by (auto simp: align_cpi_to_hours_def split: sum.splits)
  show "align_cpi_to_hours tz cpi_yoy cpi_mom hs = Inl OutOfBoundsDatetime \<longleftrightarrow>
           (cpi_yoy \<noteq> [] \<and> length cpi_yoy \<le> length cpi_mom \<and> hs \<noteq> [] \<and>
            timestamp_max < last hs + 3600)"
    using r(3) rels(1) e len by (auto simp: align_cpi_to_hours_def split: sum.splits)
qed

lemma align_cpi_lengths:
  assumes al: "align_cpi_to_hours tz cpi_yoy cpi_mom hs = Inr (yoy_col, mom_col)"
  shows "length yoy_col = length hs \<and> length mom_col = length hs"
proof -
  from al obtain rels df where
    df: "fill_loop rels (zip (map snd cpi_yoy) (map snd cpi_mom)) hs (empty_column hs) = Inr df"
    and cols: "yoy_col = ffill (map (map_option fst) df)" "mom_col = ffill (map (map_option snd) df)"
    by (auto simp: align_cpi_to_hours_def split: sum.splits)
  from fill_loop_length[OF df] have "length df = length hs" by simp
  with cols show ?thesis by simp
qed


section \<open>Facts about the aggregator\<close>

lemma floor_hour_eq: "floor_hour t = 3600 * (t div 3600)"
  by (simp add: floor_hour_def)

lemma date_range_mem:
  "h \<in> set (date_range a b) \<longleftrightarrow> (a \<le> b \<and> (\<exists>k. 0 \<le> k \<and> k \<le> (b - a) div 3600 \<and> h = a + 3600 * k))"
proof (cases "b < a")
  case True
  then show ?thesis by (simp add: date_range_def)
next
  case False
  then have nn: "0 \<le> (b - a) div 3600" by (simp add: pos_imp_zdiv_nonneg_iff)
  define N where "N = nat ((b - a) div 3600)"
  have N: "int N = (b - a) div 3600" using nn by (simp add: N_def)
  have "set (date_range a b) = (\<lambda>n. a + 3600 * int n) ` {0..<N + 1}"
    using False by (simp only: date_range_def if_False set_map set_upt N_def)
  also have "{0..<N + 1} = {n. n \<le> N}" by auto
  finally have dr: "set (date_range a b) = (\<lambda>n. a + 3600 * int n) ` {n. n \<le> N}" .
  show ?thesis
  proof
    assume "h \<in> set (date_range a b)"
    then obtain n where n: "n \<le> N" "h = a + 3600 * int n" unfolding dr by blast
    then have "0 \<le> int n" "int n \<le> (b - a) div 3600" using N by linarith+
    with n(2) False show "a \<le> b \<and> (\<exists>k. 0 \<le> k \<and> k \<le> (b - a) div 3600 \<and> h = a + 3600 * k)"
      by auto
  next
    assume "a \<le> b \<and> (\<exists>k. 0 \<le> k \<and> k \<le> (b - a) div 3600 \<and> h = a + 3600 * k)"
    then obtain k where k: "0 \<le> k" "k \<le> (b - a) div 3600" "h = a + 3600 * k" by blast
    then have "nat k \<le> N" "h = a + 3600 * int (nat k)" using N by auto
    then show "h \<in> set (date_range a b)" unfolding dr by blast
  qed
qed

lemma floor_hour_in_range:
  assumes "a \<in> set grp"
  shows "floor_hour (time_published a)
           \<in> set (date_range (Min (set (map (\<lambda>a. floor_hour (time_published a)) grp)))
                   (Max (set (map (\<lambda>a. floor_hour (time_published a)) grp))))"
proof -
  define H where "H = set (map (\<lambda>a. floor_hour (time_published a)) grp)"
  define lo hi h where "lo = Min H" and "hi = Max H" and "h = floor_hour (time_published a)"
  have fin: "finite H" by (simp add: H_def)
  have mem: "h \<in> H" using assms by (auto simp: H_def h_def)
  then have ne: "H \<noteq> {}" by auto
  have mult: "\<exists>q. x = 3600 * q" if "x \<in> H" for x
    using that by (auto simp: H_def floor_hour_eq)
  have lo: "lo \<le> h" unfolding lo_def using fin mem by (rule Min_le)
  have hi: "h \<le> hi" unfolding hi_def using fin mem by (rule Max_ge)
  have "lo \<in> H" unfolding lo_def using fin ne by (rule Min_in)
  then obtain q0 where q0: "lo = 3600 * q0" using mult by blast
  have "hi \<in> H" unfolding hi_def using fin ne by (rule Max_in)
  then obtain q1 where q1: "hi = 3600 * q1" using mult by blast
  obtain q where q: "h = 3600 * q" using mult[OF mem] by blast
  have "hi - lo = 3600 * (q1 - q0)" by (simp add: q0 q1 algebra_simps)
  then have d: "(hi - lo) div 3600 = q1 - q0" by simp
  have k: "0 \<le> q - q0" "q - q0 \<le> q1 - q0" "h = lo + 3600 * (q - q0)"
    using lo hi by (simp_all add: q q0 q1 algebra_simps)
  have "lo \<le> hi" using lo hi by simp
  with d k have "h \<in> set (date_range lo hi)"
    unfolding date_range_mem by (intro conjI exI[of _ "q - q0"]) simp_all
  then show ?thesis by (simp only: lo_def hi_def h_def H_def)
qed

lemma map_of_tabulate:
  "map_of (map (\<lambda>h. (h, f h)) xs) h = (if h \<in> set xs then Some (f h) else None)"
  by (induction xs) auto

lemma agg_Nil: "agg [] = (None, None, None, 0)"
  by (simp add: agg_def mean_skipna_def count_notna_def present_def)

lemma reindex_row_resample:
  "reindex_row t (resample_agg grp) h = mk_row t h (filter (\<lambda>a. floor_hour (time_published a) = h) grp)"
proof (cases "h \<in> set (date_range (Min (set (map (\<lambda>a. floor_hour (time_published a)) grp)))
                   (Max (set (map (\<lambda>a. floor_hour (time_published a)) grp))))")
  case True
  then show ?thesis
    by (simp add: reindex_row_def resample_agg_def Let_def map_of_tabulate agg_def mk_row_def)
next
  case False
  then have "\<forall>a\<in>set grp. floor_hour (time_published a) \<noteq> h"
    using floor_hour_in_range by blast
  then have "filter (\<lambda>a. floor_hour (time_published a) = h) grp = []"
    by (simp add: filter_empty_conv)
  with False show ?thesis
    by (simp add: reindex_row_def resample_agg_def Let_def map_of_tabulate mk_row_def
        mean_skipna_def count_notna_def present_def)
qed

lemma aggregate_rows:
  assumes "df \<noteq> []"
  shows "set (aggregate_to_hourly df s e) =
           {mk_row t h (bucket df t h) | t h.
              t \<in> ticker ` set df \<and> h \<in> set (date_range (floor_hour s) (floor_hour e))}"
proof -
  have "set (aggregate_to_hourly df s e) =
          (\<Union>t\<in>ticker ` set df. (\<lambda>h. mk_row t h (bucket df t h)) ` set (date_range (floor_hour s) (floor_hour e)))"
    using assms by (simp add: aggregate_to_hourly_def Let_def reindex_row_resample bucket_def)
  also have "\<dots> = {mk_row t h (bucket df t h) | t h.
              t \<in> ticker ` set df \<and> h \<in> set (date_range (floor_hour s) (floor_hour e))}"
    by blast
  finally show ?thesis .
qed

lemma mk_row_sel:
  "Datetime (mk_row t h B) = h" "row_ticker (mk_row t h B) = t"
  "news_count (mk_row t h B) = count_notna (map url B)"
  "overall_sentiment_mean (mk_row t h B) = mean_skipna (map overall_sentiment_score B)"
  "ticker_sentiment_mean (mk_row t h B) = mean_skipna (map ticker_sentiment_score B)"
  "ticker_relevance_mean (mk_row t h B) = mean_skipna (map ticker_relevance_score B)"
  by (simp_all add: mk_row_def)

lemma count_notna_all: "\<forall>x\<in>set xs. x \<noteq> None \<Longrightarrow> count_notna xs = int (length xs)"
  by (simp add: count_notna_def present_def)

lemma mean_skipna_eq:
  "mean_skipna xs = (if present xs = [] then None else Some (arithmetic_mean (present xs)))"
  by (simp add: mean_skipna_def arithmetic_mean_def)

section \<open>Properties of the aligners\<close>

lemmas example_data =
  spec_events_def spec_timeline_def sparse_timeline_def late_timeline_def cpi_yoy_example_def
  cpi_mom_example_def cpi_mom_longer_example_def




text \<open>
  Claim C2 (boundary fill policies): the Fed-funds aligner evaluated on a timeline that
  starts before the first release and has no point between the first and the second
  release. The leading slot takes 1.2, the value of the second event, through
  \<open>bfill\<close>, while the first event's value is 1.0.
\<close>

theorem backfill_first_value_divergence:
  "align_rate_to_hours spec_events sparse_timeline = Inr [Some 1.2, Some 1.2] \<and>
   hd sparse_timeline < fst (hd spec_events) \<and> snd (hd spec_events) = 1.0"
  unfolding example_data by code_simp

text \<open>
  Claim C3 (unsorted input), as amended. No aligner checks the order of its inputs.
  \<open>align_to_hourly\<close> sorts the events and the timeline itself, so that its result on any
  input is its result on the sorted input; \<open>align_cpi_to_hours\<close> uses its inputs in the
  order given and returns normally, with one row per timeline point, for every
  nonempty timeline whose last listed instant plus one hour is a timestamp, every series
  of pandas timestamps and every MoM series at least as long as the YoY series, ascending
  or not.
\<close>

theorem align_no_ordering_check:
  "align_to_hourly events hs = align_to_hourly (sort_key fst events) (sort hs) \<and>
   ((\<forall>d\<in>set (map fst cpi_yoy). timestamp_ok d) \<longrightarrow> length cpi_yoy \<le> length cpi_mom \<longrightarrow>
    hs \<noteq> [] \<longrightarrow> last hs + 3600 \<le> timestamp_max \<longrightarrow>
      (\<exists>yoy_col mom_col. align_cpi_to_hours tz cpi_yoy cpi_mom hs = Inr (yoy_col, mom_col) \<and>
         length yoy_col = length hs \<and> length mom_col = length hs))"
proof (intro conjI impI)
  have "sort_key fst (sort_key fst events) = sort_key fst events"
    by (rule sort_key_id_if_sorted) (rule sorted_sort_key)
  moreover have "sort (sort hs) = sort hs"
    by (rule sorted_sort_id) (rule sorted_sort)
  ultimately show "align_to_hourly events hs = align_to_hourly (sort_key fst events) (sort hs)"
    by (simp add: align_to_hourly_def)
next
  assume ok: "\<forall>d\<in>set (map fst cpi_yoy). timestamp_ok d"
    and le: "length cpi_yoy \<le> length cpi_mom" and ne: "hs \<noteq> []"
    and b: "last hs + 3600 \<le> timestamp_max"
  from align_cpi_result(1)[OF ok, of tz cpi_mom hs] le ne b
  obtain out where out: "align_cpi_to_hours tz cpi_yoy cpi_mom hs = Inr out" by blast
  obtain yoy_col mom_col where "out = (yoy_col, mom_col)" by (cases out)
  with out align_cpi_lengths
  show "\<exists>yoy_col mom_col. align_cpi_to_hours tz cpi_yoy cpi_mom hs = Inr (yoy_col, mom_col) \<and>
         length yoy_col = length hs \<and> length mom_col = length hs"
    by blast
qed

theorem align_no_ordering_check_witness:
  "\<not> sorted (map fst (rev spec_events)) \<and> \<not> sorted (rev spec_timeline) \<and>
   list_all timestamp_ok (map fst (rev cpi_yoy_example)) \<and>
   length (rev cpi_yoy_example) \<le> length (rev cpi_mom_example) \<and>
   rev spec_timeline \<noteq> [] \<and> last (rev spec_timeline) + 3600 \<le> timestamp_max \<and>
   align_to_hourly (rev spec_events) (rev spec_timeline)
     = align_to_hourly (sort_key fst (rev spec_events)) (sort (rev spec_timeline)) \<and>
   (\<exists>yoy_col mom_col.
      align_cpi_to_hours est (rev cpi_yoy_example) (rev cpi_mom_example) (rev spec_timeline)
        = Inr (yoy_col, mom_col) \<and>
      length yoy_col = 3 \<and> length mom_col = 3)"
proof -
  have a: "\<not> sorted (map fst (rev spec_events))" "\<not> sorted (rev spec_timeline)"
    by (simp_all add: example_data)
  have ok: "list_all timestamp_ok (map fst (rev cpi_yoy_example))"
    by (simp add: example_data timestamp_ok_def days_in_month_def)
  then have ok': "\<forall>d\<in>set (map fst (rev cpi_yoy_example)). timestamp_ok d"
    by (simp only: list_all_iff)
  have le: "length (rev cpi_yoy_example) \<le> length (rev cpi_mom_example)"
    and ne: "rev spec_timeline \<noteq> []" and l3: "length (rev spec_timeline) = 3"
    and b: "last (rev spec_timeline) + 3600 \<le> timestamp_max"
    by (simp_all add: example_data timestamp_max_def)
  from align_no_ordering_check[of "rev spec_events" "rev spec_timeline" "rev cpi_yoy_example"
      "rev cpi_mom_example" est] ok' le ne b l3 a ok
  show ?thesis by simp
qed

text \<open>
  The claim C3 as it was stated fails: on descending events and a descending timeline
  \<open>align_to_hourly\<close> returns the rows of the sorted input, and \<open>align_cpi_to_hours\<close>
  returns a frame in which the points 2023-04-01 and 2023-02-03 are absent; neither
  fails.
\<close>

theorem no_ordering_check_counterexample:
  "\<not> sorted (map fst (rev spec_events)) \<and> \<not> sorted (rev spec_timeline) \<and>
   align_to_hourly (rev spec_events) (rev spec_timeline)
     = [(1675209600, Some 1.0), (1675432800, Some 1.0), (1680307200, Some 1.2)] \<and>
   get_cpi_release_schedule est (rev cpi_yoy_example) = Inr [1676035800, 1673357400] \<and>
   align_cpi_to_hours est (rev cpi_yoy_example) (rev cpi_mom_example) (rev spec_timeline)
     = Inr ([None, None, Some 6.5], [None, None, Some 0.1])"
  unfolding example_data by code_simp

text \<open>
  Claim C9 (empty input is not an error). On an empty series every scheduler returns the
  empty list of events, every interval aligner returns one absent entry per timeline
  point (for any timeline, also the empty one), and the aggregator returns the empty
  table on an empty article frame; none of them fails.
\<close>

theorem empty_input_ok:
  "get_cpi_release_schedule tz ([] :: (date \<times> real) list) = Inr [] \<and>
   get_ppi_release_schedule tz ([] :: (date \<times> real) list) = Inr [] \<and>
   get_nfp_release_schedule tz ([] :: (date \<times> real) list) = Inr [] \<and>
   get_fomc_decision_times tz [] = [] \<and>
   align_cpi_to_hours tz [] cpi_mom hs
     = Inr (replicate (length hs) None, replicate (length hs) None) \<and>
   align_ppi_to_hours tz [] hs = Inr (replicate (length hs) None) \<and>
   align_nfp_to_hours tz [] hs = Inr (replicate (length hs) None) \<and>
   align_rate_to_hours [] hs = Inr (replicate (length hs) None) \<and>
   aggregate_to_hourly [] start_dt_utc end_dt_utc = []"
  by (simp add: get_cpi_release_schedule_def get_ppi_release_schedule_def
      get_nfp_release_schedule_def get_fomc_decision_times_def align_cpi_to_hours_def
      align_ppi_to_hours_def align_nfp_to_hours_def align_rate_to_hours_def
      aggregate_to_hourly_def empty_column_def ffill_all_None bfill_all_None)

theorem empty_input_ok_witness:
  "align_cpi_to_hours est [] cpi_mom_example spec_timeline
     = Inr ([None, None, None], [None, None, None]) \<and>
   align_rate_to_hours [] spec_timeline = Inr [None, None, None] \<and>
   align_ppi_to_hours est [] [] = Inr [] \<and>
   aggregate_to_hourly [] 0 7200 = []"
  using empty_input_ok[of est cpi_mom_example spec_timeline 0 7200] empty_input_ok[of est "[]" "[]" 0 0]
  by (simp add: spec_timeline_def numeral_3_eq_3)

text \<open>
  Claim C10 (timeline precondition of the interval aligners), as amended. Without an
  event every interval aligner returns normally on any timeline. With at least one event
  it reads \<open>hourly_index[-1] + pd.Timedelta(hours=1)\<close> for the last release: it fails with
  IndexError when the timeline is empty, fails with OutOfBoundsDatetime when the timeline
  is nonempty and its last instant plus one hour lies after \<open>pd.Timestamp.max\<close>, and
  returns normally otherwise. This holds of the Fed-funds aligner, and of the PPI and NFP
  aligners on a series of pandas timestamps. The CPI aligner, on a YoY series of pandas
  timestamps, moreover fails with IndexError on any timeline when the MoM series is shorter
  than the YoY series (\<open>cpi_values[i]\<close> is read before the timeline), and behaves as the
  others when it is not.
\<close>

theorem timeline_precondition:
  "((\<exists>out. align_rate_to_hours rate_changes hs = Inr out) \<longleftrightarrow>
      (rate_changes = [] \<or> (hs \<noteq> [] \<and> last hs + 3600 \<le> timestamp_max))) \<and>
   (align_rate_to_hours rate_changes hs = Inl IndexError \<longleftrightarrow> (rate_changes \<noteq> [] \<and> hs = [])) \<and>
   (align_rate_to_hours rate_changes hs = Inl OutOfBoundsDatetime \<longleftrightarrow>
      (rate_changes \<noteq> [] \<and> hs \<noteq> [] \<and> timestamp_max < last hs + 3600)) \<and>
   ((\<forall>d\<in>set (map fst series). timestamp_ok d) \<longrightarrow>
      ((\<exists>out. align_ppi_to_hours tz series hs = Inr out) \<longleftrightarrow>
         (series = [] \<or> (hs \<noteq> [] \<and> last hs + 3600 \<le> timestamp_max))) \<and>
      (align_ppi_to_hours tz series hs = Inl IndexError \<longleftrightarrow> (series \<noteq> [] \<and> hs = [])) \<and>
      (align_ppi_to_hours tz series hs = Inl OutOfBoundsDatetime \<longleftrightarrow>
         (series \<noteq> [] \<and> hs \<noteq> [] \<and> timestamp_max < last hs + 3600)) \<and>
      ((\<exists>out. align_nfp_to_hours tz series hs = Inr out) \<longleftrightarrow>
         (series = [] \<or> (hs \<noteq> [] \<and> last hs + 3600 \<le> timestamp_max))) \<and>
      (align_nfp_to_hours tz series hs = Inl IndexError \<longleftrightarrow> (series \<noteq> [] \<and> hs = [])) \<and>
      (align_nfp_to_hours tz series hs = Inl OutOfBoundsDatetime \<longleftrightarrow>
         (series \<noteq> [] \<and> hs \<noteq> [] \<and> timestamp_max < last hs + 3600)) \<and>
      ((\<exists>out. align_cpi_to_hours tz series cpi_mom hs = Inr out) \<longleftrightarrow>
         (series = [] \<or>
          (length series \<le> length cpi_mom \<and> hs \<noteq> [] \<and> last hs + 3600 \<le> timestamp_max))) \<and>
      (align_cpi_to_hours tz series cpi_mom hs = Inl IndexError \<longleftrightarrow>
         (series \<noteq> [] \<and> (length cpi_mom < length series \<or> hs = []))) \<and>
      (align_cpi_to_hours tz series cpi_mom hs = Inl OutOfBoundsDatetime \<longleftrightarrow>
         (series \<noteq> [] \<and> length series \<le> length cpi_mom \<and> hs \<noteq> [] \<and>
          timestamp_max < last hs + 3600)))"
  using align_rate_result[of rate_changes hs] align_ppi_result[of series tz hs]
    align_nfp_result[of series tz hs] align_cpi_result[of series tz cpi_mom hs]
  by (intro conjI impI)

theorem timeline_precondition_witness:
  "list_all timestamp_ok (map fst cpi_yoy_example) \<and>
   align_rate_to_hours spec_events [] = Inl IndexError \<and>
   align_ppi_to_hours est cpi_yoy_example [] = Inl IndexError \<and>
   align_nfp_to_hours est cpi_yoy_example [] = Inl IndexError \<and>
   align_cpi_to_hours est cpi_yoy_example cpi_mom_example [] = Inl IndexError \<and>
   (\<exists>out. align_rate_to_hours spec_events spec_timeline = Inr out) \<and>
   (\<exists>out. align_ppi_to_hours est cpi_yoy_example spec_timeline = Inr out) \<and>
   (\<exists>out. align_nfp_to_hours est cpi_yoy_example spec_timeline = Inr out) \<and>
   (\<exists>out. align_cpi_to_hours est cpi_yoy_example cpi_mom_example spec_timeline = Inr out) \<and>
   (\<exists>out. align_rate_to_hours [] [] = Inr out) \<and>
   align_nfp_to_hours est cpi_yoy_example late_timeline = Inl OutOfBoundsDatetime \<and>
   align_cpi_to_hours est cpi_yoy_example cpi_mom_example late_timeline = Inl OutOfBoundsDatetime"
proof -
  have ok: "list_all timestamp_ok (map fst cpi_yoy_example)"
    by (simp add: example_data timestamp_ok_def days_in_month_def)
  then have ok': "\<forall>d\<in>set (map fst cpi_yoy_example). timestamp_ok d"
    by (simp only: list_all_iff)
  have f: "length cpi_yoy_example \<le> length cpi_mom_example"
    "spec_timeline \<noteq> []" "spec_events \<noteq> []" "cpi_yoy_example \<noteq> []" "late_timeline \<noteq> []"
    "last spec_timeline + 3600 \<le> timestamp_max" "timestamp_max < last late_timeline + 3600"
    by (simp_all add: example_data timestamp_max_def)
  from timeline_precondition[of spec_events "[]" cpi_yoy_example est cpi_mom_example]
    timeline_precondition[of spec_events spec_timeline cpi_yoy_example est cpi_mom_example]
    timeline_precondition[of "[]" "[]" "[]" est "[]"]
    timeline_precondition[of spec_events late_timeline cpi_yoy_example est cpi_mom_example]
    ok ok' f
  show ?thesis by simp
qed

text \<open>
  The claim C10 as it was stated fails: on the nonempty timeline of the specification
  the CPI aligner raises IndexError when the MoM series has one observation and the YoY
  series two, and on the nonempty timeline 2262-04-11T23:00Z the Fed-funds and PPI
  aligners raise OutOfBoundsDatetime.
\<close>

theorem timeline_precondition_counterexample:
  "spec_timeline \<noteq> [] \<and> late_timeline \<noteq> [] \<and>
   align_cpi_to_hours est cpi_yoy_example [hd cpi_mom_example] spec_timeline = Inl IndexError \<and>
   align_rate_to_hours spec_events late_timeline = Inl OutOfBoundsDatetime \<and>
   align_ppi_to_hours est cpi_yoy_example late_timeline = Inl OutOfBoundsDatetime"
  unfolding example_data by code_simp

text \<open>
  The CPI aligner pairs the MoM values with the YoY releases by position. With a MoM
  series that starts one month earlier than the YoY series, the MoM column shows at
  2023-04-01 the December value 0.1, although the January value 0.5 was released on
  2023-02-10.
\<close>

lemma cpi_mom_paired_by_position:
  "align_cpi_to_hours est cpi_yoy_example cpi_mom_longer_example spec_timeline
     = Inr ([Some 6.5, Some 6.5, Some 6.4], [Some 0.2, Some 0.2, Some 0.1]) \<and>
   release_events (cpi_release est) cpi_mom_longer_example
     = [(1670851800, 0.2), (1673357400, 0.1), (1676035800, 0.5)] \<and>
   \<not> asof_slot (release_events (cpi_release est) cpi_mom_longer_example) (spec_timeline ! 2) (Some 0.1)"
  unfolding example_data by code_simp

section \<open>Properties of the aggregator\<close>

text \<open>
  Claim C8 (aggregator: absence versus zero), as amended. The output of
  \<open>aggregate_to_hourly\<close> has a row for every ticker that occurs in the articles and
  every hour of the grid. In every row, with the bucket being the records of that
  ticker published in that hour: a bucket with zero records has count 0 and all three
  means absent; when every record of the bucket carries a url, the count is the
  number of records of the bucket; and each mean is the arithmetic mean over those
  records of the bucket that carry the score, absent when none of them does.
\<close>

theorem aggregator_buckets:
  "(\<forall>t\<in>ticker ` set df. \<forall>h\<in>set (date_range (floor_hour s) (floor_hour e)).
      \<exists>r\<in>set (aggregate_to_hourly df s e). row_ticker r = t \<and> Datetime r = h) \<and>
   (\<forall>r\<in>set (aggregate_to_hourly df s e).
      (bucket df (row_ticker r) (Datetime r) = [] \<longrightarrow>
         news_count r = 0 \<and> overall_sentiment_mean r = None \<and>
         ticker_sentiment_mean r = None \<and> ticker_relevance_mean r = None) \<and>
      ((\<forall>a\<in>set (bucket df (row_ticker r) (Datetime r)). url a \<noteq> None) \<longrightarrow>
         news_count r = int (length (bucket df (row_ticker r) (Datetime r)))) \<and>
      overall_sentiment_mean r =
        (let xs = present (map overall_sentiment_score (bucket df (row_ticker r) (Datetime r)))
         in if xs = [] then None else Some (arithmetic_mean xs)) \<and>
      ticker_sentiment_mean r =
        (let xs = present (map ticker_sentiment_score (bucket df (row_ticker r) (Datetime r)))
         in if xs = [] then None else Some (arithmetic_mean xs)) \<and>
      ticker_relevance_mean r =
        (let xs = present (map ticker_relevance_score (bucket df (row_ticker r) (Datetime r)))
         in if xs = [] then None else Some (arithmetic_mean xs)))"
proof (rule conjI; rule ballI)
  fix t
  assume t: "t \<in> ticker ` set df"
  show "\<forall>h\<in>set (date_range (floor_hour s) (floor_hour e)).
      \<exists>r\<in>set (aggregate_to_hourly df s e). row_ticker r = t \<and> Datetime r = h"
  proof
  fix h
  assume "h \<in> set (date_range (floor_hour s) (floor_hour e))"
  with t have "t \<in> ticker ` set df" "h \<in> set (date_range (floor_hour s) (floor_hour e))" by simp_all
  then have "mk_row t h (bucket df t h) \<in> set (aggregate_to_hourly df s e)"
    by (cases "df = []") (auto simp: aggregate_rows)
  then show "\<exists>r\<in>set (aggregate_to_hourly df s e). row_ticker r = t \<and> Datetime r = h"
    by (auto simp: mk_row_sel intro!: bexI[of _ "mk_row t h (bucket df t h)"])
  qed
next
  fix r assume r: "r \<in> set (aggregate_to_hourly df s e)"
  then have "df \<noteq> []" by (auto simp: aggregate_to_hourly_def)
  with r obtain t h where rr: "r = mk_row t h (bucket df t h)"
    by (auto simp: aggregate_rows)
  show "(bucket df (row_ticker r) (Datetime r) = [] \<longrightarrow>
         news_count r = 0 \<and> overall_sentiment_mean r = None \<and>
         ticker_sentiment_mean r = None \<and> ticker_relevance_mean r = None) \<and>
      ((\<forall>a\<in>set (bucket df (row_ticker r) (Datetime r)). url a \<noteq> None) \<longrightarrow>
         news_count r = int (length (bucket df (row_ticker r) (Datetime r)))) \<and>
      overall_sentiment_mean r =
        (let xs = present (map overall_sentiment_score (bucket df (row_ticker r) (Datetime r)))
         in if xs = [] then None else Some (arithmetic_mean xs)) \<and>
      ticker_sentiment_mean r =
        (let xs = present (map ticker_sentiment_score (bucket df (row_ticker r) (Datetime r)))
         in if xs = [] then None else Some (arithmetic_mean xs)) \<and>
      ticker_relevance_mean r =
        (let xs = present (map ticker_relevance_score (bucket df (row_ticker r) (Datetime r)))
         in if xs = [] then None else Some (arithmetic_mean xs))"
    unfolding rr mk_row_sel Let_def
    by (auto simp: count_notna_all mean_skipna_eq count_notna_def present_def)
qed


theorem aggregator_buckets_witness:
  "(\<exists>r\<in>set (aggregate_to_hourly news_example 0 7200).
      row_ticker r = ''AAPL'' \<and> Datetime r = 7200 \<and> news_count r = 0 \<and>
      overall_sentiment_mean r = None \<and> ticker_sentiment_mean r = None \<and>
      ticker_relevance_mean r = None) \<and>
   (\<exists>r\<in>set (aggregate_to_hourly news_example 0 7200).
      row_ticker r = ''AAPL'' \<and> Datetime r = 0 \<and> news_count r = 2 \<and>
      overall_sentiment_mean r = Some 0.5)"
proof -
  note main = aggregator_buckets[of news_example 0 7200]
  have t: "''AAPL'' \<in> ticker ` set news_example" by (simp add: news_example_def)
  have h: "7200 \<in> set (date_range (floor_hour 0) (floor_hour 7200))"
          "0 \<in> set (date_range (floor_hour 0) (floor_hour 7200))"
    by (simp_all add: date_range_mem floor_hour_def)
  have b2: "bucket news_example ''AAPL'' 7200 = []"
    by (simp add: bucket_def news_example_def floor_hour_def)
  have b0: "\<forall>a\<in>set (bucket news_example ''AAPL'' 0). url a \<noteq> None"
      "length (bucket news_example ''AAPL'' 0) = 2"
      "present (map overall_sentiment_score (bucket news_example ''AAPL'' 0)) = [0.5]"
    unfolding news_example_def by code_simp+
  from main t h(1) obtain r2 where r2: "r2 \<in> set (aggregate_to_hourly news_example 0 7200)"
      "row_ticker r2 = ''AAPL''" "Datetime r2 = 7200" by blast
  with main b2 have "news_count r2 = 0 \<and> overall_sentiment_mean r2 = None \<and>
      ticker_sentiment_mean r2 = None \<and> ticker_relevance_mean r2 = None"
    by metis
  with r2 have A: "\<exists>r\<in>set (aggregate_to_hourly news_example 0 7200).
      row_ticker r = ''AAPL'' \<and> Datetime r = 7200 \<and> news_count r = 0 \<and>
      overall_sentiment_mean r = None \<and> ticker_sentiment_mean r = None \<and>
      ticker_relevance_mean r = None" by blast
  from main t h(2) obtain r0 where r0: "r0 \<in> set (aggregate_to_hourly news_example 0 7200)"
      "row_ticker r0 = ''AAPL''" "Datetime r0 = 0" by blast
  from main r0(1) have
    "(\<forall>a\<in>set (bucket news_example (row_ticker r0) (Datetime r0)). url a \<noteq> None) \<longrightarrow>
         news_count r0 = int (length (bucket news_example (row_ticker r0) (Datetime r0)))"
    "overall_sentiment_mean r0 =
        (let xs = present (map overall_sentiment_score (bucket news_example (row_ticker r0) (Datetime r0)))
         in if xs = [] then None else Some (arithmetic_mean xs))"
    by blast+
  with r0(2,3) b0 have "news_count r0 = 2" "overall_sentiment_mean r0 = Some 0.5"
    by (simp_all add: arithmetic_mean_def)
  with r0 have B: "\<exists>r\<in>set (aggregate_to_hourly news_example 0 7200).
      row_ticker r = ''AAPL'' \<and> Datetime r = 0 \<and> news_count r = 2 \<and>
      overall_sentiment_mean r = Some 0.5" by blast
  from A B show ?thesis by blast
qed


text \<open>
  The claim C8 as it was stated fails where records lack a score: the bucket of hour 0
  has two records but its means are those of the one record that carries scores, and the
  bucket of hour 3600 has one record and all means absent.
\<close>

theorem aggregator_mean_counterexample:
  "aggregate_to_hourly news_example 0 7200 =
     [\<lparr>Datetime = 0, row_ticker = ''AAPL'', news_count = 2, overall_sentiment_mean = Some 0.5,
       ticker_sentiment_mean = Some 0.75, ticker_relevance_mean = Some 0.25\<rparr>,
      \<lparr>Datetime = 3600, row_ticker = ''AAPL'', news_count = 1, overall_sentiment_mean = None,
       ticker_sentiment_mean = None, ticker_relevance_mean = None\<rparr>,
      \<lparr>Datetime = 7200, row_ticker = ''AAPL'', news_count = 0, overall_sentiment_mean = None,
       ticker_sentiment_mean = None, ticker_relevance_mean = None\<rparr>] \<and>
   length (bucket news_example ''AAPL'' 0) = 2 \<and>
   length (bucket news_example ''AAPL'' 3600) = 1"
  unfolding news_example_def by code_simp


end
